theory Spec2Isabelle
  imports Main
begin

section \<open>Cucumber Expressions: the expression-to-regex compiler\<close>

text \<open>
  A shallow embedding of \<^verbatim>\<open>src/CucumberExpression.cpp\<close> and of the exception classes of
  \<^verbatim>\<open>CucumberExpression.hpp\<close>. A \<^verbatim>\<open>std::string\<close> is a \<^typ>\<open>string\<close> (a list of bytes), a
  \<^verbatim>\<open>size_t\<close> position is a \<^typ>\<open>nat\<close> with the one wrap-around the code can reach
  (\<^verbatim>\<open>pos - 1\<close> at \<^verbatim>\<open>pos == 0\<close>) written out, the \<^verbatim>\<open>int\<close> depth counters are \<^typ>\<open>int\<close>
  (an expression has fewer than \<open>2^31\<close> characters), a thrown exception or a read outside a
  string is the left summand of the result.
\<close>

subsection \<open>Characters and strings\<close>

definition bs :: char where
  "bs = CHR 0x5C"

definition dq :: char where
  "dq = CHR 0x22"

definition sq :: char where
  "sq = CHR 0x27"

definition SIZE_MAX :: nat where
  "SIZE_MAX = 2 ^ 64 - 1"

text \<open>\<^verbatim>\<open>pos - 1\<close> on a \<^verbatim>\<open>size_t\<close>: zero wraps around to \<^verbatim>\<open>SIZE_MAX\<close>.\<close>

definition size_t_pred :: "nat \<Rightarrow> nat" where
  "size_t_pred pos = (if pos = 0 then SIZE_MAX else pos - 1)"

text \<open>\<^verbatim>\<open>s.find(ch, pos)\<close>: the first index at or after \<open>pos\<close> holding \<open>ch\<close>;
  \<^verbatim>\<open>npos\<close> is \<open>None\<close>.\<close>

definition find_char :: "string \<Rightarrow> char \<Rightarrow> nat \<Rightarrow> nat option" where
  "find_char s ch pos =
     (if ch \<in> set (drop pos s)
      then Some (pos + length (takeWhile (\<lambda>c. c \<noteq> ch) (drop pos s)))
      else None)"

text \<open>\<^verbatim>\<open>s.rfind(ch)\<close>: the last index holding \<open>ch\<close>.\<close>

definition rfind_char :: "string \<Rightarrow> char \<Rightarrow> nat option" where
  "rfind_char s ch =
     (if ch \<in> set s
      then Some (length s - 1 - length (takeWhile (\<lambda>c. c \<noteq> ch) (rev s)))
      else None)"

text \<open>\<^verbatim>\<open>s.substr(pos, n)\<close>, called by the code with \<open>pos \<le> length s\<close> only.\<close>

definition substr :: "string \<Rightarrow> nat \<Rightarrow> nat \<Rightarrow> string" where
  "substr s pos n = take n (drop pos s)"

definition digit :: "nat \<Rightarrow> char" where
  "digit n = ''0123456789'' ! n"

text \<open>\<^verbatim>\<open>std::to_string\<close> on a \<^verbatim>\<open>size_t\<close> or a non-negative \<^verbatim>\<open>int\<close>.\<close>

function to_string :: "nat \<Rightarrow> string" where
  "to_string n = (if n < 10 then [digit n] else to_string (n div 10) @ [digit (n mod 10)])"
  by pat_completeness auto
termination
  by (relation "measure (\<lambda>n. n)") auto

subsection \<open>The exception classes\<close>

text \<open>One constructor per class of the header, with the constructor arguments of the class.
  The first is the base class, built from its message.\<close>

datatype cukex_exception =
    CucumberExpressionException string
  | UnknownParameterTypeException string
  | UnclosedParameterException string
  | UnclosedOptionalException string
  | UnmatchedClosingBraceException
  | UnmatchedClosingParenthesisException
  | EmptyOptionalException int
  | OptionalParameterTypeException int
  | AlternationInOptionalException
  | EmptyAlternativeException int
  | NestedOptionalException
  | EmptyExpressionException

text \<open>The message \<^verbatim>\<open>what()\<close> each class hands to \<^verbatim>\<open>std::invalid_argument\<close>.\<close>

fun what :: "cukex_exception \<Rightarrow> string" where
  "what (CucumberExpressionException message) = message"
| "what (UnknownParameterTypeException paramType) =
     ''Unknown parameter type: {'' @ paramType @ ''}''"
| "what (UnclosedParameterException message) = message"
| "what (UnclosedOptionalException message) = message"
| "what UnmatchedClosingBraceException =
     ''Unexpected closing brace '' @ [sq] @ ''}'' @ [sq] @ '' without matching opening brace''"
| "what UnmatchedClosingParenthesisException =
     ''Unexpected closing parenthesis '' @ [sq] @ '')'' @ [sq]
       @ '' without matching opening parenthesis''"
| "what (EmptyOptionalException column) =
     (if column \<ge> 0
      then ''An optional must contain some text (at column '' @ to_string (nat column) @ '')''
      else ''An optional must contain some text'')"
| "what (OptionalParameterTypeException column) =
     (if column \<ge> 0
      then ''An optional may not contain a parameter type (at column ''
             @ to_string (nat column) @ '')''
      else ''An optional may not contain a parameter type'')"
| "what AlternationInOptionalException = ''Alternation is not allowed inside optional text''"
| "what (EmptyAlternativeException column) =
     (if column \<ge> 0
      then ''Alternation may not have empty alternatives (at column ''
             @ to_string (nat column) @ '')''
      else ''Alternation may not have empty alternatives'')"
| "what NestedOptionalException = ''Nested optional text is not allowed''"
| "what EmptyExpressionException = ''Cucumber expression cannot be empty''"

text \<open>What a call can end in besides a value: an exception, or a read outside a string
  (\<^verbatim>\<open>operator[]\<close> and \<^verbatim>\<open>back()\<close> do not check; the behaviour is undefined and no
  \<^verbatim>\<open>catch\<close> sees it).\<close>

datatype failure = Throw cukex_exception | OutOfBoundsRead

text \<open>\<^verbatim>\<open>expression[i]\<close>.\<close>

definition read :: "string \<Rightarrow> nat \<Rightarrow> failure + char" where
  "read s i = (if i < length s then Inr (s ! i) else Inl OutOfBoundsRead)"

subsection \<open>The parameter type registry\<close>

definition int_regexp :: string where
  "int_regexp = ''-?'' @ [bs] @ ''d+''"

definition float_regexp :: string where
  "float_regexp =
     ''(?=.*'' @ [bs] @ ''d.*)[-+]?'' @ [bs] @ ''d*(?:'' @ [bs] @ ''.(?='' @ [bs] @ ''d.*))?''
       @ [bs] @ ''d*(?:'' @ [bs] @ ''d+[E][+-]?'' @ [bs] @ ''d+)?''"

definition word_regexp :: string where
  "word_regexp = ''[^'' @ [bs] @ ''s]+''"

definition quoted_regexp :: "char \<Rightarrow> string" where
  "quoted_regexp q =
     [q] @ ''([^'' @ [q, bs, bs] @ '']*('' @ [bs, bs] @ ''.[^'' @ [q, bs, bs] @ '']*)*)'' @ [q]"

definition string_regexp :: string where
  "string_regexp = quoted_regexp dq @ ''|'' @ quoted_regexp sq"

definition PARAMETER_TYPES :: "(string \<times> string) list" where
  "PARAMETER_TYPES =
     [(''int'', int_regexp),
      (''float'', float_regexp),
      (''word'', word_regexp),
      (''string'', string_regexp),
      (''bigdecimal'', float_regexp),
      (''double'', float_regexp),
      (''biginteger'', int_regexp),
      (''byte'', int_regexp),
      (''short'', int_regexp),
      (''long'', int_regexp),
      ('''', ''.*'')]"

text \<open>The \<^verbatim>\<open>std::map\<close> that \<^verbatim>\<open>getParameterTypes()\<close> returns. The parser below takes the map
  it consults as its argument \<open>types\<close>; the code calls \<^verbatim>\<open>getParameterTypes()\<close> there.\<close>

definition getParameterTypes :: "string \<Rightarrow> string option" where
  "getParameterTypes = map_of PARAMETER_TYPES"

subsection \<open>The structural validator (the first loop of \<^verbatim>\<open>cukex::transform\<close>)\<close>

function validate_loop :: "string \<Rightarrow> nat \<Rightarrow> int \<Rightarrow> int \<Rightarrow> failure + (int \<times> int)" where
  "validate_loop expression i braceDepth parenDepth =
     (if i < length expression then
        (let c = expression ! i in
         if i > 0 \<and> expression ! (i - 1) = bs then
           validate_loop expression (i + 1) braceDepth parenDepth
         else if c = CHR ''{'' then
           (if braceDepth + 1 > 1
            then Inl (Throw (CucumberExpressionException
                               ''Nested parameter types are not allowed''))
            else validate_loop expression (i + 1) (braceDepth + 1) parenDepth)
         else if c = CHR ''}'' then
           (if braceDepth - 1 < 0
            then Inl (Throw UnmatchedClosingBraceException)
            else validate_loop expression (i + 1) (braceDepth - 1) parenDepth)
         else if c = CHR ''('' then
           validate_loop expression (i + 1) braceDepth (parenDepth + 1)
         else if c = CHR '')'' then
           (if parenDepth - 1 < 0
            then Inl (Throw UnmatchedClosingParenthesisException)
            else validate_loop expression (i + 1) braceDepth (parenDepth - 1))
         else validate_loop expression (i + 1) braceDepth parenDepth)
      else Inr (braceDepth, parenDepth))"
  by pat_completeness auto
termination
  by (relation "measure (\<lambda>(expression, i, braceDepth, parenDepth). length expression - i)") auto

text \<open>The scan and the two checks after it; \<open>None\<close> is "well-formed".\<close>

definition validate :: "string \<Rightarrow> failure option" where
  "validate expression =
     (case validate_loop expression 0 0 0 of
        Inl f \<Rightarrow> Some f
      | Inr (braceDepth, parenDepth) \<Rightarrow>
          if braceDepth \<noteq> 0 then
            Some (Throw (UnclosedParameterException
                           ''Unclosed parameter type: unmatched braces''))
          else if parenDepth \<noteq> 0 then
            Some (Throw (UnclosedOptionalException
                           ''Unclosed optional text: unmatched parentheses''))
          else None)"

declare validate_loop.simps [simp del]

declare to_string.simps [simp del]

subsection \<open>The parser class\<close>

text \<open>The characters that \<^verbatim>\<open>parse\<close>, \<^verbatim>\<open>escapeRegexChars\<close> and \<^verbatim>\<open>parseAlternativeText\<close> look up
  in \<^verbatim>\<open>".^$|()[]{}*+?\\"\<close>.\<close>

definition regex_special :: string where
  "regex_special = ''.^$|()[]{}*+?'' @ [bs]"

fun escapeRegexChars :: "string \<Rightarrow> string" where
  "escapeRegexChars [] = []"
| "escapeRegexChars (c # text) =
     (if c \<in> set regex_special then [bs, c] else [c]) @ escapeRegexChars text"

lemma takeWhile_neq_hit:
  "ch \<in> set d \<Longrightarrow>
     length (takeWhile (\<lambda>c. c \<noteq> ch) d) < length d \<and>
     d ! length (takeWhile (\<lambda>c. c \<noteq> ch) d) = ch"
  by (induction d) auto

lemma find_char_Some:
  "find_char s ch pos = Some k \<Longrightarrow> pos \<le> k \<and> k < length s \<and> s ! k = ch"
proof -
  assume a: "find_char s ch pos = Some k"
  let ?d = "drop pos s"
  let ?t = "takeWhile (\<lambda>c. c \<noteq> ch) ?d"
  from a have mem: "ch \<in> set ?d" and k: "k = pos + length ?t"
    by (auto simp: find_char_def split: if_splits)
  from takeWhile_neq_hit[OF mem] have lt: "length ?t < length ?d" and hit: "?d ! length ?t = ch"
    by auto
  from lt have "pos + length ?t < length s" by simp
  with hit show ?thesis using k by (simp add: add.commute)
qed

text \<open>The \<^verbatim>\<open>while\<close> loop of \<^verbatim>\<open>parseAlternativeText\<close>, on the index \<open>i\<close> and the output so far.\<close>

function parseAlternativeText_loop :: "string \<Rightarrow> nat \<Rightarrow> string \<Rightarrow> failure + string" where
  "parseAlternativeText_loop text i result =
     (if i < length text then
        (let c = text ! i in
         if c = CHR ''('' then
           (case find_char text (CHR '')'') i of
              Some closePos \<Rightarrow>
                (let optionalContent = substr text (i + 1) (closePos - i - 1) in
                 if optionalContent = [] then
                   Inl (Throw (CucumberExpressionException
                                 ''Empty optional text is not allowed''))
                 else parseAlternativeText_loop text (closePos + 1)
                        (result @ ''(?:'' @ escapeRegexChars optionalContent @ '')?''))
            | None \<Rightarrow>
                parseAlternativeText_loop text (i + 1)
                  (result @ (if c \<in> set regex_special then [bs, c] else [c])))
         else parseAlternativeText_loop text (i + 1)
                (result @ (if c \<in> set regex_special then [bs, c] else [c])))
      else Inr result)"
  by pat_completeness auto
termination
  by (relation "measure (\<lambda>(text, i, result). length text - i)")
     (auto dest!: find_char_Some)

definition parseAlternativeText :: "string \<Rightarrow> failure + string" where
  "parseAlternativeText text = parseAlternativeText_loop text 0 []"

text \<open>\<^verbatim>\<open>collectAlternativesFromHere\<close>, the backward scan. \<open>paren_loop\<close> is its inner loop
  \<^verbatim>\<open>while (i >= 0 && depth > 0)\<close>, whose first test is always true on a \<^verbatim>\<open>size_t\<close>; it returns
  the index and the word collected so far.\<close>

function paren_loop :: "string \<Rightarrow> nat \<Rightarrow> int \<Rightarrow> string \<Rightarrow> failure + (nat \<times> string)" where
  "paren_loop expression i depth current =
     (if depth > 0 then
        (case read expression i of
           Inl f \<Rightarrow> Inl f
         | Inr pc \<Rightarrow>
             (let current = pc # current;
                  depth = (if pc = CHR '')'' then depth + 1 else depth);
                  depth = (if pc = CHR ''('' then depth - 1 else depth)
              in if i = 0 then Inr (i, current)
                 else paren_loop expression (i - 1) depth current))
      else Inr (i, current))"
  by pat_completeness auto
termination
  by (relation "measure (\<lambda>(expression, i, depth, current). i)") auto

declare paren_loop.simps [simp del]

lemma paren_loop_le:
  "paren_loop expression i depth current = Inr (i', current') \<Longrightarrow> i' \<le> i"
proof (induction expression i depth current rule: paren_loop.induct)
  case (1 expression i depth current)
  show ?case
  proof (cases "depth > 0")
    case False
    with "1.prems" show ?thesis by (simp add: paren_loop.simps)
  next
    case True
    show ?thesis
    proof (cases "read expression i")
      case (Inl f)
      with True "1.prems" show ?thesis by (simp add: paren_loop.simps)
    next
      case (Inr pc)
      show ?thesis
      proof (cases "i = 0")
        case True
        with \<open>depth > 0\<close> Inr "1.prems" show ?thesis
          by (simp add: paren_loop.simps Let_def)
      next
        case False
        from \<open>depth > 0\<close> Inr False "1.prems"
        have "i' \<le> i - 1"
          by (intro "1.IH"[OF \<open>depth > 0\<close> Inr refl refl refl False])
             (simp add: paren_loop.simps[of expression i] Let_def)
        then show ?thesis by simp
      qed
    qed
  qed
qed

text \<open>The outer loop \<^verbatim>\<open>while (expression[i] != ' ' && expression[i] != '{')\<close>, started at
  \<open>startPos\<close> with an empty word; it returns the word before the first \<^verbatim>\<open>/\<close>.\<close>

function back_loop :: "string \<Rightarrow> nat \<Rightarrow> string \<Rightarrow> failure + string" where
  "back_loop expression i current =
     (case read expression i of
        Inl f \<Rightarrow> Inl f
      | Inr c \<Rightarrow>
          if c = CHR '' '' \<or> c = CHR ''{'' then Inr current
          else if c = CHR '')'' then
            (if i = 0 then Inr (c # current)
             else (case paren_loop expression (i - 1) 1 (c # current) of
                     Inl f \<Rightarrow> Inl f
                   | Inr (i', current') \<Rightarrow> back_loop expression i' current'))
          else if c = CHR ''('' then Inr current
          else if i = 0 then Inr (c # current)
          else back_loop expression (i - 1) (c # current))"
  by pat_completeness auto
termination
  by (relation "measure (\<lambda>(expression, i, current). i)")
     (auto dest!: paren_loop_le)

declare back_loop.simps [simp del]

text \<open>The forward scan \<^verbatim>\<open>while (fwdPos < expression.length())\<close> with the \<^verbatim>\<open>push_back\<close> that
  follows it: the alternatives and the position where the scan stopped. The string
  \<^verbatim>\<open>allWords\<close> of the source is written to and never read; it is left out.\<close>

function fwd_loop :: "string \<Rightarrow> nat \<Rightarrow> string \<Rightarrow> string list \<Rightarrow> string list \<times> nat" where
  "fwd_loop expression fwdPos current alternatives =
     (if fwdPos < length expression then
        (let c = expression ! fwdPos in
         if c = CHR '' '' \<or> c = CHR ''{'' then
           (if current \<noteq> [] then alternatives @ [current] else alternatives, fwdPos)
         else if c = CHR ''('' \<and> current = [] then
           (if current \<noteq> [] then alternatives @ [current] else alternatives, fwdPos)
         else if c = CHR ''('' then
           (case find_char expression (CHR '')'') fwdPos of
              Some parenEnd \<Rightarrow>
                fwd_loop expression (parenEnd + 1)
                  (current @ substr expression fwdPos (parenEnd + 1 - fwdPos)) alternatives
            | None \<Rightarrow> fwd_loop expression (fwdPos + 1) (current @ [c]) alternatives)
         else if c = bs \<and> fwdPos + 1 < length expression
                  \<and> expression ! (fwdPos + 1) = CHR ''/'' then
           fwd_loop expression (fwdPos + 2) current alternatives
         else if c = CHR ''/'' then
           fwd_loop expression (fwdPos + 1) []
             (if current \<noteq> [] then alternatives @ [current] else alternatives)
         else fwd_loop expression (fwdPos + 1) (current @ [c]) alternatives)
      else (if current \<noteq> [] then alternatives @ [current] else alternatives, fwdPos))"
  by pat_completeness auto
termination
  by (relation "measure (\<lambda>(expression, fwdPos, current, alternatives). length expression - fwdPos)")
     (auto dest!: find_char_Some)

declare fwd_loop.simps [simp del]

text \<open>The new value of the member \<^verbatim>\<open>pos\<close> is returned beside the alternatives.\<close>

definition collectAlternativesFromHere :: "string \<Rightarrow> nat \<Rightarrow> failure + (string list \<times> nat)" where
  "collectAlternativesFromHere expression startPos =
     (case back_loop expression startPos [] of
        Inl f \<Rightarrow> Inl f
      | Inr current \<Rightarrow>
          Inr (fwd_loop expression (startPos + 1) []
                 (if current \<noteq> [] then [current] else [])))"


text \<open>\<^verbatim>\<open>parseAlternatives\<close>. \<open>emit_alternatives\<close> is its \<^verbatim>\<open>for\<close> loop, on the alternatives left,
  the index \<open>i\<close> and the output so far. The loop on \<^verbatim>\<open>wordEnd\<close> before it changes nothing but
  that local variable; it calls \<^verbatim>\<open>result.back()\<close> when \<open>pos > 0\<close>, which reads outside an
  empty \<open>result\<close>.\<close>

fun emit_alternatives :: "string list \<Rightarrow> nat \<Rightarrow> string \<Rightarrow> failure + string" where
  "emit_alternatives [] i result = Inr result"
| "emit_alternatives (alternative # rest) i result =
     (case parseAlternativeText alternative of
        Inl f \<Rightarrow> Inl f
      | Inr text \<Rightarrow>
          emit_alternatives rest (i + 1) (result @ (if i > 0 then ''|'' else []) @ text))"

definition parseAlternatives :: "string \<Rightarrow> string \<Rightarrow> nat \<Rightarrow> failure + (string \<times> nat)" where
  "parseAlternatives expression result pos =
     (if pos > 0 \<and> result = [] then Inl OutOfBoundsRead
      else
        (case collectAlternativesFromHere expression (size_t_pred pos) of
           Inl f \<Rightarrow> Inl f
         | Inr (alternatives, pos') \<Rightarrow>
             if length alternatives > 1 then
               (let result =
                      (case rfind_char result (CHR '' '') of
                         Some lastSpace \<Rightarrow> substr result 0 (lastSpace + 1)
                       | None \<Rightarrow> [])
                in case emit_alternatives alternatives 0 (result @ ''(?:'') of
                     Inl f \<Rightarrow> Inl f
                   | Inr result \<Rightarrow> Inr (result @ '')'', pos'))
             else Inr (result, pos')))"

text \<open>\<^verbatim>\<open>parseEscaping\<close>, \<^verbatim>\<open>parseOpenBrace\<close> and \<^verbatim>\<open>parseOpenParenthesis\<close>: the new output and the
  new position, or the exception thrown.\<close>

definition parseEscaping :: "string \<Rightarrow> string \<Rightarrow> nat \<Rightarrow> string \<times> nat" where
  "parseEscaping expression result pos =
     (let next = expression ! (pos + 1) in
      (result @ (if next = CHR ''{'' \<or> next = CHR ''}'' \<or> next = CHR ''('' \<or> next = CHR '')''
                 then [bs] else [])
              @ [next],
       pos + 2))"

definition parseOpenBrace ::
  "(string \<Rightarrow> string option) \<Rightarrow> string \<Rightarrow> string \<Rightarrow> nat \<Rightarrow> failure + (string \<times> nat)" where
  "parseOpenBrace types expression result pos =
     (case find_char expression (CHR ''}'') pos of
        None \<Rightarrow>
          Inl (Throw (UnclosedParameterException
                        (''Unclosed parameter type: missing '' @ [sq] @ ''}'' @ [sq]
                           @ '' at position '' @ to_string pos)))
      | Some closePos \<Rightarrow>
          (let paramType = substr expression (pos + 1) (closePos - pos - 1) in
           case types paramType of
             None \<Rightarrow> Inl (Throw (UnknownParameterTypeException paramType))
           | Some regexp \<Rightarrow> Inr (result @ ''('' @ regexp @ '')'', closePos + 1)))"

definition parseOpenParenthesis :: "string \<Rightarrow> string \<Rightarrow> nat \<Rightarrow> failure + (string \<times> nat)" where
  "parseOpenParenthesis expression result pos =
     (case find_char expression (CHR '')'') pos of
        None \<Rightarrow>
          Inl (Throw (UnclosedOptionalException
                        (''Unclosed optional text: missing '' @ [sq] @ '')'' @ [sq]
                           @ '' at position '' @ to_string pos)))
      | Some closePos \<Rightarrow>
          (let optionalContent = substr expression (pos + 1) (closePos - pos - 1) in
           if optionalContent = [] then
             Inl (Throw (CucumberExpressionException
                           (''Empty optional text is not allowed at position ''
                              @ to_string pos)))
           else Inr (result @ ''(?:'' @ escapeRegexChars optionalContent @ '')?'',
                     closePos + 1)))"

text \<open>One turn of the \<^verbatim>\<open>while\<close> loop of \<^verbatim>\<open>parse()\<close>, entered with \<open>pos < length expression\<close>:
  the new output and the new position.\<close>

definition parse_step ::
  "(string \<Rightarrow> string option) \<Rightarrow> string \<Rightarrow> string \<Rightarrow> nat \<Rightarrow> failure + (string \<times> nat)" where
  "parse_step types expression result pos =
     (let current = expression ! pos in
      if current = bs \<and> pos + 1 < length expression
           \<and> (let next = expression ! (pos + 1)
               in next = CHR ''('' \<or> next = CHR '')'' \<or> next = CHR ''{''
                    \<or> next = CHR ''}'' \<or> next = CHR ''/'') then
        Inr (parseEscaping expression result pos)
      else if current = CHR ''{'' then parseOpenBrace types expression result pos
      else if current = CHR ''('' then parseOpenParenthesis expression result pos
      else if current = CHR ''/'' then parseAlternatives expression result pos
      else Inr (result @ (if current \<in> set regex_special then [bs, current] else [current]),
                pos + 1))"

text \<open>The forward scan never moves back, and moves on when it starts at a \<^verbatim>\<open>/\<close>.\<close>

lemma fwd_loop_ge: "fwdPos \<le> snd (fwd_loop expression fwdPos current alternatives)"
proof (induction expression fwdPos current alternatives rule: fwd_loop.induct)
  case (1 e p cur alts)
  let ?c = "e ! p"
  show ?case
  proof (cases "p < length e")
    case False
    then show ?thesis by (subst fwd_loop.simps) (auto simp: Let_def bs_def)
  next
    case lt: True
    consider (stop) "?c = CHR '' '' \<or> ?c = CHR ''{'' \<or> (?c = CHR ''('' \<and> cur = [])"
      | (paren) "\<not> (?c = CHR '' '' \<or> ?c = CHR ''{'')" "?c = CHR ''(''" "cur \<noteq> []"
      | (esc) "\<not> (?c = CHR '' '' \<or> ?c = CHR ''{'')" "?c \<noteq> CHR ''(''"
              "?c = bs \<and> p + 1 < length e \<and> e ! (p + 1) = CHR ''/''"
      | (slash) "\<not> (?c = CHR '' '' \<or> ?c = CHR ''{'')" "?c \<noteq> CHR ''(''"
              "\<not> (?c = bs \<and> p + 1 < length e \<and> e ! (p + 1) = CHR ''/'')" "?c = CHR ''/''"
      | (other) "\<not> (?c = CHR '' '' \<or> ?c = CHR ''{'')" "?c \<noteq> CHR ''(''"
              "\<not> (?c = bs \<and> p + 1 < length e \<and> e ! (p + 1) = CHR ''/'')" "?c \<noteq> CHR ''/''"
      by blast
    then show ?thesis
    proof cases
      case stop
      with lt show ?thesis by (subst fwd_loop.simps) auto
    next
      case paren
      show ?thesis
      proof (cases "find_char e (CHR '')'') p")
        case None
        have "p + 1 \<le> snd (fwd_loop e (p + 1) (cur @ [?c]) alts)"
          using "1.IH"(1)[OF lt refl _ _ _ None] paren by simp
        with lt paren None show ?thesis by (subst fwd_loop.simps) (auto simp: Let_def bs_def)
      next
        case (Some parenEnd)
        have "parenEnd + 1 \<le> snd (fwd_loop e (parenEnd + 1)
                 (cur @ substr e p (parenEnd + 1 - p)) alts)"
          using "1.IH"(2)[OF lt refl _ _ _ Some] paren by simp
        moreover from find_char_Some[OF Some] have "p \<le> parenEnd" by simp
        ultimately show ?thesis using lt paren Some by (subst fwd_loop.simps) (auto simp: Let_def bs_def)
      qed
    next
      case esc
      have "p + 2 \<le> snd (fwd_loop e (p + 2) cur alts)"
        using "1.IH"(3)[OF lt refl] esc by simp
      with lt esc show ?thesis by (subst fwd_loop.simps) (auto simp: Let_def bs_def)
    next
      case slash
      have "p + 1 \<le> snd (fwd_loop e (p + 1) []
               (if cur \<noteq> [] then alts @ [cur] else alts))"
        using "1.IH"(4)[OF lt refl] slash by simp
      with lt slash show ?thesis by (subst fwd_loop.simps) (auto simp: Let_def bs_def)
    next
      case other
      have "p + 1 \<le> snd (fwd_loop e (p + 1) (cur @ [?c]) alts)"
        using "1.IH"(5)[OF lt refl] other by simp
      with lt other show ?thesis by (subst fwd_loop.simps) (auto simp: Let_def bs_def)
    qed
  qed
qed


lemma fwd_loop_slash:
  assumes "p < length e" "e ! p = CHR ''/''"
  shows "p < snd (fwd_loop e p cur alts)"
proof -
  have "fwd_loop e p cur alts
          = fwd_loop e (p + 1) [] (if cur \<noteq> [] then alts @ [cur] else alts)"
    using assms by (subst fwd_loop.simps) (simp add: Let_def bs_def)
  moreover have "p + 1 \<le> snd (fwd_loop e (p + 1) [] (if cur \<noteq> [] then alts @ [cur] else alts))"
    by (rule fwd_loop_ge)
  ultimately show ?thesis by simp
qed

lemma collectAlternativesFromHere_pos:
  assumes "collectAlternativesFromHere e startPos = Inr (alts, p')"
  shows "\<exists>a. p' = snd (fwd_loop e (startPos + 1) [] a)"
proof (cases "back_loop e startPos []")
  case (Inl f)
  with assms show ?thesis by (simp add: collectAlternativesFromHere_def)
next
  case (Inr current)
  with assms have "fwd_loop e (startPos + 1) [] (if current \<noteq> [] then [current] else [])
                     = (alts, p')"
    by (simp add: collectAlternativesFromHere_def)
  then have "p' = snd (fwd_loop e (startPos + 1) [] (if current \<noteq> [] then [current] else []))"
    by simp
  then show ?thesis by blast
qed

lemma parseAlternatives_pos:
  assumes "parseAlternatives e result pos = Inr (result', pos')"
  shows "\<exists>alts. collectAlternativesFromHere e (size_t_pred pos) = Inr (alts, pos')"
proof (cases "collectAlternativesFromHere e (size_t_pred pos)")
  case (Inl f)
  with assms show ?thesis by (simp add: parseAlternatives_def split: if_splits)
next
  case (Inr ap)
  obtain alts p where ap: "ap = (alts, p)" by (cases ap)
  from assms Inr ap have "p = pos'"
    by (auto simp: parseAlternatives_def Let_def split: if_splits sum.splits)
  with Inr ap show ?thesis by simp
qed

lemma parseAlternatives_advances:
  assumes "pos < length e" "e ! pos = CHR ''/''"
    and "parseAlternatives e result pos = Inr (result', pos')"
  shows "pos < pos'"
proof -
  from parseAlternatives_pos[OF assms(3)] collectAlternativesFromHere_pos
  obtain alts where
    pos': "pos' = snd (fwd_loop e (size_t_pred pos + 1) [] alts)"
    by blast
  show ?thesis
  proof (cases "pos = 0")
    case True
    have "size_t_pred pos + 1 \<le> pos'" unfolding pos' by (rule fwd_loop_ge)
    with True show ?thesis by (simp add: size_t_pred_def)
  next
    case False
    then have "size_t_pred pos + 1 = pos" by (simp add: size_t_pred_def)
    with pos' fwd_loop_slash[OF assms(1,2)] show ?thesis by simp
  qed
qed

text \<open>The condition of the first branch of \<open>parse_step\<close>, and \<open>parse_step\<close> branch by
  branch.\<close>

definition escapable :: "string \<Rightarrow> nat \<Rightarrow> bool" where
  "escapable e pos =
     (e ! pos = bs \<and> pos + 1 < length e \<and>
      (e ! (pos + 1) = CHR ''('' \<or> e ! (pos + 1) = CHR '')'' \<or> e ! (pos + 1) = CHR ''{''
         \<or> e ! (pos + 1) = CHR ''}'' \<or> e ! (pos + 1) = CHR ''/''))"

lemma parse_step_escape:
  "escapable e pos \<Longrightarrow> parse_step types e result pos = Inr (parseEscaping e result pos)"
  by (simp add: parse_step_def escapable_def Let_def)

lemma parse_step_brace:
  "e ! pos = CHR ''{'' \<Longrightarrow> parse_step types e result pos = parseOpenBrace types e result pos"
  by (simp add: parse_step_def Let_def bs_def)

lemma parse_step_paren:
  "e ! pos = CHR ''('' \<Longrightarrow> parse_step types e result pos = parseOpenParenthesis e result pos"
  by (simp add: parse_step_def Let_def bs_def)

lemma parse_step_slash:
  "e ! pos = CHR ''/'' \<Longrightarrow> parse_step types e result pos = parseAlternatives e result pos"
  by (simp add: parse_step_def Let_def bs_def)

lemma parse_step_literal:
  "\<not> escapable e pos \<Longrightarrow> e ! pos \<noteq> CHR ''{'' \<Longrightarrow> e ! pos \<noteq> CHR ''('' \<Longrightarrow> e ! pos \<noteq> CHR ''/''
   \<Longrightarrow> parse_step types e result pos =
         Inr (result @ (if e ! pos \<in> set regex_special then [bs, e ! pos] else [e ! pos]),
              pos + 1)"
  by (auto simp: parse_step_def escapable_def Let_def)

lemma parse_step_advances:
  assumes "pos < length e" "parse_step types e result pos = Inr (result', pos')"
  shows "pos < pos'"
proof (cases "escapable e pos")
  case True
  with assms(2) show ?thesis by (auto simp: parse_step_escape parseEscaping_def Let_def)
next
  case esc: False
  show ?thesis
  proof (cases "e ! pos = CHR ''{''")
    case True
    with assms(2) show ?thesis
      by (auto simp: parse_step_brace parseOpenBrace_def Let_def split: option.splits
               dest!: find_char_Some)
  next
    case brace: False
    show ?thesis
    proof (cases "e ! pos = CHR ''(''")
      case True
      with assms(2) show ?thesis
        by (auto simp: parse_step_paren parseOpenParenthesis_def Let_def
                 split: option.splits if_splits dest!: find_char_Some)
    next
      case paren: False
      show ?thesis
      proof (cases "e ! pos = CHR ''/''")
        case True
        with assms show ?thesis
          by (auto simp: parse_step_slash dest: parseAlternatives_advances)
      next
        case False
        with esc brace paren assms(2) show ?thesis by (simp add: parse_step_literal)
      qed
    qed
  qed
qed

text \<open>The \<^verbatim>\<open>while (pos < expression.length())\<close> loop of \<^verbatim>\<open>parse()\<close>. Every turn moves
  \<open>pos\<close> forward, so the loop ends.\<close>

function parse_loop ::
  "(string \<Rightarrow> string option) \<Rightarrow> string \<Rightarrow> string \<Rightarrow> nat \<Rightarrow> failure + string" where
  "parse_loop types expression result pos =
     (if pos < length expression then
        (case parse_step types expression result pos of
           Inl f \<Rightarrow> Inl f
         | Inr (result', pos') \<Rightarrow> parse_loop types expression result' pos')
      else Inr result)"
  by pat_completeness auto
termination
proof (relation "measure (\<lambda>(types, expression, result, pos). length expression - pos)")
  fix types :: "string \<Rightarrow> string option" and expression result :: string
    and pos :: nat and x result' pos'
  assume "pos < length expression" "parse_step types expression result pos = Inr x"
    "(result', pos') = x"
  then have "pos < pos'" by (auto dest: parse_step_advances)
  with \<open>pos < length expression\<close>
  show "((types, expression, result', pos'), (types, expression, result, pos))
          \<in> measure (\<lambda>(types, expression, result, pos). length expression - pos)"
    by simp
qed simp

declare parse_loop.simps [simp del]

text \<open>\<^verbatim>\<open>CucumberExpressionpressionParser(expr).parse()\<close>.\<close>

definition parse :: "(string \<Rightarrow> string option) \<Rightarrow> string \<Rightarrow> failure + string" where
  "parse types expression = parse_loop types expression [] 0"

text \<open>\<^verbatim>\<open>validateRegex\<close>: \<open>std_regex\<close> stands for the constructor of \<^verbatim>\<open>std::regex\<close>, which is
  not part of this code: \<open>None\<close> when it accepts the pattern, the \<^verbatim>\<open>what()\<close> of its
  \<^verbatim>\<open>std::regex_error\<close> when it does not.\<close>

definition validateRegex :: "(string \<Rightarrow> string option) \<Rightarrow> string \<Rightarrow> failure + unit" where
  "validateRegex std_regex regex =
     (case std_regex regex of
        Some e_what \<Rightarrow>
          Inl (Throw (CucumberExpressionException
                        (''Failed to create valid regex: '' @ e_what)))
      | None \<Rightarrow> Inr ())"

text \<open>The \<^verbatim>\<open>catch (const std::exception& e)\<close> of \<^verbatim>\<open>cukex::transform\<close>.\<close>

fun catch_std_exception :: "failure + string \<Rightarrow> failure + string" where
  "catch_std_exception (Inl (Throw e)) =
     Inl (Throw (CucumberExpressionException (''Invalid Cucumber expression: '' @ what e)))"
| "catch_std_exception (Inl OutOfBoundsRead) = Inl OutOfBoundsRead"
| "catch_std_exception (Inr regex) = Inr regex"

text \<open>\<^verbatim>\<open>cukex::transform\<close>, with the registry and the regex engine as arguments; the code
  is \<open>transform getParameterTypes\<close> applied to the \<^verbatim>\<open>std::regex\<close> of the platform.\<close>

definition transform ::
  "(string \<Rightarrow> string option) \<Rightarrow> (string \<Rightarrow> string option) \<Rightarrow> string \<Rightarrow> failure + string" where
  "transform types std_regex expression =
     (if expression = [] then Inl (Throw EmptyExpressionException)
      else
        (case validate expression of
           Some f \<Rightarrow> Inl f
         | None \<Rightarrow>
             catch_std_exception
               (case parse types expression of
                  Inl f \<Rightarrow> Inl f
                | Inr regex \<Rightarrow>
                    (let regex = ''^'' @ regex @ ''$'' in
                     case validateRegex std_regex regex of
                       Inl f \<Rightarrow> Inl f
                     | Inr _ \<Rightarrow> Inr regex))))"

text \<open>A regex engine that accepts every pattern, for the examples.\<close>

definition accepts_all :: "string \<Rightarrow> string option" where
  "accepts_all regex = None"

text \<open>The negation of the test \<^verbatim>\<open>i > 0 && expression[i - 1] == '\\'\<close> that makes the scan skip
  position \<open>i\<close>.\<close>

definition counted :: "string \<Rightarrow> nat \<Rightarrow> bool" where
  "counted expression i = (\<not> (0 < i \<and> expression ! (i - 1) = bs))"

definition counted_chars :: "string \<Rightarrow> string" where
  "counted_chars expression =
     map (\<lambda>i. expression ! i) (filter (counted expression) [0..<length expression])"

text \<open>Depth tracking over a plain sequence of characters, none skipped: the reading of the
  validator that the scan is compared with.\<close>

fun depth_scan :: "string \<Rightarrow> int \<Rightarrow> int \<Rightarrow> failure + (int \<times> int)" where
  "depth_scan [] braceDepth parenDepth = Inr (braceDepth, parenDepth)"
| "depth_scan (c # cs) braceDepth parenDepth =
     (if c = CHR ''{'' then
        (if braceDepth + 1 > 1
         then Inl (Throw (CucumberExpressionException ''Nested parameter types are not allowed''))
         else depth_scan cs (braceDepth + 1) parenDepth)
      else if c = CHR ''}'' then
        (if braceDepth - 1 < 0
         then Inl (Throw UnmatchedClosingBraceException)
         else depth_scan cs (braceDepth - 1) parenDepth)
      else if c = CHR ''('' then depth_scan cs braceDepth (parenDepth + 1)
      else if c = CHR '')'' then
        (if parenDepth - 1 < 0
         then Inl (Throw UnmatchedClosingParenthesisException)
         else depth_scan cs braceDepth (parenDepth - 1))
      else depth_scan cs braceDepth parenDepth)"

text \<open>The literal round-trip as the specification words it: each of the metacharacters
  \<^verbatim>\<open>. ^ $ | [ ] { } * + ?\<close> gets a backslash in front.\<close>

definition prefix_metachars :: "string \<Rightarrow> string" where
  "prefix_metachars text =
     concat (map (\<lambda>c. if c \<in> set ''.^$|[]{}*+?'' then [bs, c] else [c]) text)"

text \<open>What the output buffer of \<^verbatim>\<open>parse()\<close> never is: it never starts with \<^verbatim>\<open>^\<close>, and where it
  ends with \<^verbatim>\<open>$\<close> a backslash stands before that.\<close>

definition unanchored :: "string \<Rightarrow> bool" where
  "unanchored r =
     ((\<forall>xs. r \<noteq> CHR ''^'' # xs) \<and> (\<forall>xs. r = xs @ ''$'' \<longrightarrow> (\<exists>ys. xs = ys @ [bs])))"

definition emitted :: "string \<Rightarrow> bool" where
  "emitted sfx =
     (sfx \<noteq> [] \<and> hd sfx \<noteq> CHR ''^'' \<and> (last sfx \<noteq> CHR ''$'' \<or> (\<exists>ys. sfx = ys @ [bs, CHR ''$''])))"

text \<open>Modelled from the spec: the custom parameter type definitions and their merge into the
  registry (\<^verbatim>\<open>merge(customDefs)\<close>, sections 3 and 4.1). The source holds the built-in table
  only; no loader or merge is part of it. A definition is an external record with the
  fields \<^verbatim>\<open>name\<close> and \<^verbatim>\<open>regexp\<close>, either of which may be missing.\<close>

record CustomTypeDefinition =
  name :: "string option"
  regexp :: "string option"

text \<open>Modelled from the spec: "for each external entry with non-empty name and regexp,
  insert/overwrite; entries missing a field are skipped without error".\<close>

definition merge_entry ::
  "(string \<Rightarrow> string option) \<Rightarrow> CustomTypeDefinition \<Rightarrow> (string \<Rightarrow> string option)" where
  "merge_entry types d =
     (case (name d, regexp d) of
        (Some n, Some r) \<Rightarrow> if n \<noteq> [] \<and> r \<noteq> [] then types(n \<mapsto> r) else types
      | _ \<Rightarrow> types)"

text \<open>Modelled from the spec: \<^verbatim>\<open>merge(customDefs)\<close> takes the entries in their order, a
  later one overwriting an earlier one of the same name.\<close>

definition merge ::
  "(string \<Rightarrow> string option) \<Rightarrow> CustomTypeDefinition list \<Rightarrow> (string \<Rightarrow> string option)" where
  "merge types customDefs = foldl merge_entry types customDefs"

text \<open>The entry \<^verbatim>\<open>{name: "color", regexp: "red|blue"}\<close>.\<close>

definition color :: CustomTypeDefinition where
  "color = \<lparr>name = Some ''color'', regexp = Some ''red|blue''\<rparr>"

section \<open>Properties\<close>

subsection \<open>Shared lemmas\<close>

lemma parse_leading_slash:
  assumes "e \<noteq> []" "e ! 0 = CHR ''/''" "length e \<le> SIZE_MAX"
  shows "parse types e = Inl OutOfBoundsRead"
proof -
  have "back_loop e SIZE_MAX [] = Inl OutOfBoundsRead"
    using assms(3) by (subst back_loop.simps) (simp add: read_def)
  then have "parseAlternatives e [] 0 = Inl OutOfBoundsRead"
    by (simp add: parseAlternatives_def size_t_pred_def collectAlternativesFromHere_def)
  with assms(1,2) show ?thesis
    unfolding parse_def by (subst parse_loop.simps) (simp add: parse_step_slash)
qed

lemma transform_validated:
  "expression \<noteq> [] \<Longrightarrow> validate expression = None \<Longrightarrow>
   transform types std_regex expression =
     catch_std_exception
       (case parse types expression of
          Inl f \<Rightarrow> Inl f
        | Inr regex \<Rightarrow>
            (case validateRegex std_regex (''^'' @ regex @ ''$'') of
               Inl f \<Rightarrow> Inl f
             | Inr _ \<Rightarrow> Inr (''^'' @ regex @ ''$'')))"
  by (simp add: transform_def Let_def split: sum.splits)

lemma transform_rejected:
  "expression \<noteq> [] \<Longrightarrow> validate expression = Some f \<Longrightarrow>
   transform types std_regex expression = Inl f"
  by (simp add: transform_def)

lemma validate_slash_a: "validate ''/a'' = None"
  by code_simp

lemma validate_alternation: "validate ''a/b c/d/e'' = None"
  by code_simp

lemma parse_alternation: "parse getParameterTypes ''a/b c/d/e'' = Inr ''(?:a|b) (?:c|d|e)''"
  by code_simp

lemma validate_loop_end:
  "length e \<le> i \<Longrightarrow> validate_loop e i b p = Inr (b, p)"
  by (subst validate_loop.simps) simp

lemma validate_loop_skip:
  "i < length e \<Longrightarrow> \<not> counted e i \<Longrightarrow> validate_loop e i b p = validate_loop e (i + 1) b p"
  by (subst validate_loop.simps) (simp add: counted_def)

lemma validate_loop_counted:
  "i < length e \<Longrightarrow> counted e i \<Longrightarrow>
   validate_loop e i b p =
     (if e ! i = CHR ''{'' then
        (if b + 1 > 1
         then Inl (Throw (CucumberExpressionException ''Nested parameter types are not allowed''))
         else validate_loop e (i + 1) (b + 1) p)
      else if e ! i = CHR ''}'' then
        (if b - 1 < 0 then Inl (Throw UnmatchedClosingBraceException)
         else validate_loop e (i + 1) (b - 1) p)
      else if e ! i = CHR ''('' then validate_loop e (i + 1) b (p + 1)
      else if e ! i = CHR '')'' then
        (if p - 1 < 0 then Inl (Throw UnmatchedClosingParenthesisException)
         else validate_loop e (i + 1) b (p - 1))
      else validate_loop e (i + 1) b p)"
  by (subst validate_loop.simps) (auto simp: counted_def Let_def)

lemma validate_loop_depth_scan:
  "validate_loop e i b p =
     depth_scan (map (\<lambda>j. e ! j) (filter (counted e) [i..<length e])) b p"
proof (induction "length e - i" arbitrary: i b p)
  case 0
  then show ?case by (simp add: validate_loop_end)
next
  case (Suc n)
  then have lt: "i < length e" and n: "n = length e - (i + 1)" by simp_all
  have upt: "[i..<length e] = i # [i + 1..<length e]"
    using lt by (simp add: upt_conv_Cons)
  show ?case
  proof (cases "counted e i")
    case False
    with lt upt Suc.hyps(1)[OF n] show ?thesis by (simp add: validate_loop_skip)
  next
    case True
    with lt upt Suc.hyps(1)[OF n] show ?thesis by (simp add: validate_loop_counted)
  qed
qed

lemma validate_loop_counted_chars:
  "validate_loop e 0 b p = depth_scan (counted_chars e) b p"
  by (simp add: validate_loop_depth_scan counted_chars_def)

lemma validate_escaped_backslash:
  "validate [CHR ''a'', bs, bs, CHR ''(''] = None"
  by code_simp

lemma parse_escaped_backslash:
  "parse getParameterTypes [CHR ''a'', bs, bs, CHR ''(''] = Inr [CHR ''a'', bs, bs, bs, CHR ''('']"
  by code_simp

lemma validate_test_paren:
  "validate ''test ('' =
     Some (Throw (UnclosedOptionalException ''Unclosed optional text: unmatched parentheses''))"
  by code_simp

lemma validate_int_open:
  "validate ''{int'' =
     Some (Throw (UnclosedParameterException ''Unclosed parameter type: unmatched braces''))"
  by code_simp

lemma validate_closing_brace: "validate ''}'' = Some (Throw UnmatchedClosingBraceException)"
  by code_simp

lemma validate_closing_paren: "validate '')'' = Some (Throw UnmatchedClosingParenthesisException)"
  by code_simp

lemma validate_loop_int_open: "validate_loop ''{int'' 0 0 0 = Inr (1, 0)"
  by code_simp

lemma validate_loop_test_paren: "validate_loop ''test ('' 0 0 0 = Inr (0, 1)"
  by code_simp

lemma escapeRegexChars_append:
  "escapeRegexChars (xs @ ys) = escapeRegexChars xs @ escapeRegexChars ys"
  by (induction xs) simp_all

lemma parse_loop_end:
  "length e \<le> pos \<Longrightarrow> parse_loop types e result pos = Inr result"
  by (subst parse_loop.simps) simp

lemma parse_loop_step:
  "pos < length e \<Longrightarrow> parse_step types e result pos = Inr (result', pos') \<Longrightarrow>
   parse_loop types e result pos = parse_loop types e result' pos'"
  by (subst parse_loop.simps) simp

lemma parse_loop_fail:
  "pos < length e \<Longrightarrow> parse_step types e result pos = Inl f \<Longrightarrow>
   parse_loop types e result pos = Inl f"
  by (subst parse_loop.simps) simp

lemma substr_step:
  "pos < n \<Longrightarrow> n \<le> length e \<Longrightarrow>
   substr e pos (n - pos) = e ! pos # substr e (pos + 1) (n - (pos + 1))"
proof -
  assume a: "pos < n" "n \<le> length e"
  then have "drop pos e = e ! pos # drop (Suc pos) e"
    by (simp add: Cons_nth_drop_Suc)
  moreover from a have "n - pos = Suc (n - (pos + 1))" by simp
  ultimately show ?thesis by (simp add: substr_def)
qed

text \<open>A run of positions at which the loop takes its last branch.\<close>

lemma parse_loop_literal_run:
  assumes "n \<le> length e" "pos \<le> n"
    and "\<And>j. pos \<le> j \<Longrightarrow> j < n \<Longrightarrow>
           \<not> escapable e j \<and> e ! j \<noteq> CHR ''{'' \<and> e ! j \<noteq> CHR ''('' \<and> e ! j \<noteq> CHR ''/''"
  shows "parse_loop types e result pos
           = parse_loop types e (result @ escapeRegexChars (substr e pos (n - pos))) n"
  using assms
proof (induction "n - pos" arbitrary: pos result)
  case 0
  then show ?case by (simp add: substr_def)
next
  case (Suc k)
  then have lt: "pos < n" and k: "k = n - (pos + 1)" by simp_all
  from Suc.prems(3)[of pos] lt
  have lit: "\<not> escapable e pos" "e ! pos \<noteq> CHR ''{''" "e ! pos \<noteq> CHR ''(''" "e ! pos \<noteq> CHR ''/''"
    by simp_all
  let ?r = "result @ (if e ! pos \<in> set regex_special then [bs, e ! pos] else [e ! pos])"
  have "parse_loop types e result pos = parse_loop types e ?r (pos + 1)"
    using lt Suc.prems(1) by (intro parse_loop_step) (simp_all add: parse_step_literal lit)
  also have "\<dots> = parse_loop types e
                     (?r @ escapeRegexChars (substr e (pos + 1) (n - (pos + 1)))) n"
    using lt Suc.prems by (intro Suc.hyps(1)[OF k]) simp_all
  also have "?r @ escapeRegexChars (substr e (pos + 1) (n - (pos + 1)))
               = result @ escapeRegexChars (substr e pos (n - pos))"
    using substr_step[OF lt Suc.prems(1)] by simp
  finally show ?case .
qed

lemma parse_literal:
  assumes "\<And>j. j < length e \<Longrightarrow>
           \<not> escapable e j \<and> e ! j \<noteq> CHR ''{'' \<and> e ! j \<noteq> CHR ''('' \<and> e ! j \<noteq> CHR ''/''"
  shows "parse types e = Inr (escapeRegexChars e)"
proof -
  have "parse_loop types e [] 0
          = parse_loop types e ([] @ escapeRegexChars (substr e 0 (length e - 0))) (length e)"
    using assms by (intro parse_loop_literal_run) simp_all
  then show ?thesis by (simp add: parse_def substr_def parse_loop_end)
qed

lemma depth_scan_plain:
  "set cs \<inter> {CHR ''{'', CHR ''}'', CHR ''('', CHR '')''} = {} \<Longrightarrow>
   depth_scan cs b p = Inr (b, p)"
  by (induction cs) auto

lemma set_counted_chars: "set (counted_chars e) \<subseteq> set e"
  by (auto simp: counted_chars_def)

lemma validate_plain:
  assumes "set e \<inter> {CHR ''{'', CHR ''}'', CHR ''('', CHR '')''} = {}"
  shows "validate e = None"
proof -
  from assms set_counted_chars[of e]
  have "set (counted_chars e) \<inter> {CHR ''{'', CHR ''}'', CHR ''('', CHR '')''} = {}"
    by blast
  then have "validate_loop e 0 0 0 = Inr (0, 0)"
    by (simp add: validate_loop_counted_chars depth_scan_plain)
  then show ?thesis by (simp add: validate_def)
qed

text \<open>Without any of \<^verbatim>\<open>{ } ( ) /\<close> an expression is one literal run, backslashes included.\<close>

lemma transform_plain:
  assumes "e \<noteq> []"
    and "set e \<inter> {CHR ''{'', CHR ''}'', CHR ''('', CHR '')'', CHR ''/''} = {}"
    and "std_regex (''^'' @ escapeRegexChars e @ ''$'') = None"
  shows "transform types std_regex e = Inr (''^'' @ escapeRegexChars e @ ''$'')"
proof -
  from assms(2) have v: "validate e = None" by (intro validate_plain) blast
  have "parse types e = Inr (escapeRegexChars e)"
  proof (rule parse_literal)
    fix j assume j: "j < length e"
    then have here: "e ! j \<in> set e" by simp
    have "\<not> escapable e j"
    proof
      assume esc: "escapable e j"
      then have "e ! (j + 1) \<in> set e" by (simp add: escapable_def)
      moreover from esc
      have "e ! (j + 1) \<in> {CHR ''{'', CHR ''}'', CHR ''('', CHR '')'', CHR ''/''}"
        by (auto simp: escapable_def)
      ultimately show False using assms(2) by blast
    qed
    with here assms(2)
    show "\<not> escapable e j \<and> e ! j \<noteq> CHR ''{'' \<and> e ! j \<noteq> CHR ''('' \<and> e ! j \<noteq> CHR ''/''"
      by auto
  qed
  with v assms(1,3) show ?thesis
    by (simp add: transform_validated validateRegex_def)
qed

lemma escapeRegexChars_prefix_metachars:
  "set s \<inter> {CHR ''('', CHR '')'', bs} = {} \<Longrightarrow> escapeRegexChars s = prefix_metachars s"
  by (induction s) (auto simp: prefix_metachars_def regex_special_def)

lemma find_char_next:
  assumes "pos + 1 < length e" "e ! pos \<noteq> ch" "e ! (pos + 1) = ch"
  shows "find_char e ch pos = Some (pos + 1)"
proof -
  from assms(1) have "drop pos e = e ! pos # e ! (pos + 1) # drop (pos + 2) e"
    by (simp add: Cons_nth_drop_Suc)
  with assms(2,3) show ?thesis by (simp add: find_char_def)
qed

lemma parse_loop_empty_optional:
  assumes "pos + 1 < length e" "e ! pos = CHR ''(''" "e ! (pos + 1) = CHR '')''"
  shows "parse_loop types e result pos =
           Inl (Throw (CucumberExpressionException
                         (''Empty optional text is not allowed at position '' @ to_string pos)))"
proof -
  have "find_char e (CHR '')'') pos = Some (pos + 1)"
    using assms by (intro find_char_next) simp_all
  then have "parseOpenParenthesis e result pos =
           Inl (Throw (CucumberExpressionException
                         (''Empty optional text is not allowed at position '' @ to_string pos)))"
    by (simp add: parseOpenParenthesis_def substr_def)
  with assms(1,2) show ?thesis
    by (intro parse_loop_fail) (simp_all add: parse_step_paren)
qed

lemma depth_scan_failure:
  "depth_scan cs b p = Inl f \<Longrightarrow>
   f = Throw (CucumberExpressionException ''Nested parameter types are not allowed'')
   \<or> f = Throw UnmatchedClosingBraceException \<or> f = Throw UnmatchedClosingParenthesisException"
  by (induction cs b p rule: depth_scan.induct) (auto split: if_splits)

lemma validate_failure:
  assumes "validate e = Some f"
  shows "f = Throw UnmatchedClosingBraceException \<or> f = Throw UnmatchedClosingParenthesisException
         \<or> (\<exists>m. f = Throw (UnclosedParameterException m))
         \<or> (\<exists>m. f = Throw (UnclosedOptionalException m))
         \<or> (\<exists>m. f = Throw (CucumberExpressionException m))"
proof (cases "validate_loop e 0 0 0")
  case (Inl g)
  with assms have "f = g" by (simp add: validate_def)
  with Inl depth_scan_failure[of "counted_chars e" 0 0 f] show ?thesis
    by (auto simp: validate_loop_counted_chars)
next
  case (Inr bp)
  with assms show ?thesis by (cases bp) (auto simp: validate_def split: if_splits)
qed

lemma catch_std_exception_failure:
  "catch_std_exception x = Inl f \<Longrightarrow>
   f = OutOfBoundsRead \<or> (\<exists>m. f = Throw (CucumberExpressionException m))"
  by (cases x rule: catch_std_exception.cases) auto

text \<open>The failures that \<^verbatim>\<open>cukex::transform\<close> can end in.\<close>

lemma transform_failure:
  assumes "transform types std_regex e = Inl f"
  shows "f = OutOfBoundsRead \<or> f = Throw EmptyExpressionException
         \<or> f = Throw UnmatchedClosingBraceException
         \<or> f = Throw UnmatchedClosingParenthesisException
         \<or> (\<exists>m. f = Throw (UnclosedParameterException m))
         \<or> (\<exists>m. f = Throw (UnclosedOptionalException m))
         \<or> (\<exists>m. f = Throw (CucumberExpressionException m))"
proof (cases "e = []")
  case True
  with assms show ?thesis by (simp add: transform_def)
next
  case ne: False
  show ?thesis
  proof (cases "validate e")
    case (Some g)
    with ne assms have "f = g" by (simp add: transform_rejected)
    with validate_failure[OF Some] show ?thesis by blast
  next
    case None
    from assms catch_std_exception_failure show ?thesis
      unfolding transform_validated[OF ne None] by blast
  qed
qed

lemma validate_empty_optional: "validate ''()'' = None"
  by code_simp

lemma validate_nested_empty_optional: "validate ''(a())'' = None"
  by code_simp

lemma parse_nested_empty_optional:
  "parse getParameterTypes ''(a())'' = Inr (''(?:a'' @ [bs] @ ''()?'' @ [bs] @ '')'')"
  by code_simp

lemma validate_three_mice: "validate ''three () mice'' = None"
  by code_simp

lemma unanchored_Nil: "unanchored []"
  by (simp add: unanchored_def)

lemma unanchored_append:
  assumes "\<forall>xs. r \<noteq> CHR ''^'' # xs" "emitted sfx"
  shows "unanchored (r @ sfx)"
proof -
  from assms(2) obtain c cs where sfx: "sfx = c # cs" and c: "c \<noteq> CHR ''^''"
    by (cases sfx) (auto simp: emitted_def)
  have 1: "\<forall>xs. r @ sfx \<noteq> CHR ''^'' # xs"
    using assms(1) sfx c by (cases r) auto
  have 2: "\<forall>xs. r @ sfx = xs @ ''$'' \<longrightarrow> (\<exists>ys. xs = ys @ [bs])"
  proof (intro allI impI)
    fix xs assume eq: "r @ sfx = xs @ ''$''"
    from assms(2) have ne: "sfx \<noteq> []" by (simp add: emitted_def)
    with eq have "last sfx = CHR ''$''"
      by (metis last_appendR last_snoc)
    with assms(2) obtain ys where "sfx = ys @ [bs, CHR ''$'']"
      by (auto simp: emitted_def)
    with eq have "xs @ ''$'' = (r @ ys @ [bs]) @ ''$''" by simp
    then have "xs = r @ ys @ [bs]" by (simp only: append_same_eq)
    then show "\<exists>ys. xs = ys @ [bs]" by (metis append.assoc)
  qed
  from 1 2 show ?thesis by (simp add: unanchored_def)
qed

lemma emit_alternatives_prefix:
  "emit_alternatives alts i acc = Inr res \<Longrightarrow> \<exists>t. res = acc @ t"
proof (induction alts arbitrary: i acc)
  case Nil
  then show ?case by simp
next
  case (Cons a alts)
  then show ?case
    by (cases "parseAlternativeText a") (fastforce)+
qed

lemma take_not_caret:
  "\<forall>xs. r \<noteq> CHR ''^'' # xs \<Longrightarrow> \<forall>xs. take k r \<noteq> CHR ''^'' # xs"
  by (cases r; cases k) auto

lemma parseAlternatives_unanchored:
  assumes "unanchored result" "parseAlternatives e result pos = Inr (result', pos')"
  shows "unanchored result'"
proof (cases "collectAlternativesFromHere e (size_t_pred pos)")
  case (Inl f)
  with assms(2) show ?thesis by (simp add: parseAlternatives_def split: if_splits)
next
  case (Inr ap)
  obtain alts p where ap: "ap = (alts, p)" by (cases ap)
  show ?thesis
  proof (cases "length alts > 1")
    case False
    with assms Inr ap show ?thesis
      by (auto simp: parseAlternatives_def split: if_splits)
  next
    case True
    define r0 where "r0 = (case rfind_char result (CHR '' '') of
                         Some lastSpace \<Rightarrow> substr result 0 (lastSpace + 1)
                       | None \<Rightarrow> [])"
    from assms(1) have "\<forall>xs. r0 \<noteq> CHR ''^'' # xs"
      using take_not_caret[of result]
      by (auto simp: r0_def substr_def unanchored_def split: option.splits)
    moreover
    from assms(2) Inr ap True obtain res where
      res: "emit_alternatives alts 0 (r0 @ ''(?:'') = Inr res" and r': "result' = res @ '')''"
      by (auto simp: parseAlternatives_def Let_def r0_def split: if_splits sum.splits)
    from emit_alternatives_prefix[OF res] obtain t where "res = (r0 @ ''(?:'') @ t" ..
    with r' have "result' = r0 @ (''(?:'' @ t @ '')'')" by simp
    moreover have "emitted (''(?:'' @ t @ '')'')" by (simp add: emitted_def)
    ultimately show ?thesis by (simp add: unanchored_append)
  qed
qed

lemma parse_step_unanchored:
  assumes "unanchored result" "parse_step types e result pos = Inr (result', pos')"
  shows "unanchored result'"
proof -
  from assms(1) have nc: "\<forall>xs. result \<noteq> CHR ''^'' # xs" by (simp add: unanchored_def)
  show ?thesis
  proof (cases "escapable e pos")
    case True
    with assms(2) have "result' = result @
        ((if e ! (pos + 1) = CHR ''{'' \<or> e ! (pos + 1) = CHR ''}'' \<or> e ! (pos + 1) = CHR ''(''
             \<or> e ! (pos + 1) = CHR '')'' then [bs] else []) @ [e ! (pos + 1)])"
      by (simp add: parse_step_escape parseEscaping_def Let_def)
    moreover from True have "emitted
        ((if e ! (pos + 1) = CHR ''{'' \<or> e ! (pos + 1) = CHR ''}'' \<or> e ! (pos + 1) = CHR ''(''
             \<or> e ! (pos + 1) = CHR '')'' then [bs] else []) @ [e ! (pos + 1)])"
      by (auto simp: escapable_def emitted_def bs_def)
    ultimately show ?thesis using unanchored_append[OF nc] by simp
  next
    case esc: False
    show ?thesis
    proof (cases "e ! pos = CHR ''{''")
      case True
      with assms(2) obtain fragment where "result' = result @ (''('' @ fragment @ '')'')"
        by (auto simp: parse_step_brace parseOpenBrace_def Let_def split: option.splits)
      moreover have "emitted (''('' @ fragment @ '')'')" by (simp add: emitted_def)
      ultimately show ?thesis using unanchored_append[OF nc] by simp
    next
      case brace: False
      show ?thesis
      proof (cases "e ! pos = CHR ''(''")
        case True
        with assms(2) obtain content where
          "result' = result @ (''(?:'' @ escapeRegexChars content @ '')?'')"
          by (auto simp: parse_step_paren parseOpenParenthesis_def Let_def
                   split: option.splits if_splits)
        moreover have "emitted (''(?:'' @ escapeRegexChars content @ '')?'')"
          by (simp add: emitted_def)
        ultimately show ?thesis using unanchored_append[OF nc] by simp
      next
        case paren: False
        show ?thesis
        proof (cases "e ! pos = CHR ''/''")
          case True
          with assms show ?thesis
            by (auto simp: parse_step_slash dest: parseAlternatives_unanchored)
        next
          case False
          with esc brace paren assms(2)
          have "result' = result @ (if e ! pos \<in> set regex_special then [bs, e ! pos] else [e ! pos])"
            by (simp add: parse_step_literal)
          moreover have "emitted (if e ! pos \<in> set regex_special then [bs, e ! pos] else [e ! pos])"
            by (auto simp: emitted_def regex_special_def bs_def)
          ultimately show ?thesis using unanchored_append[OF nc] by simp
        qed
      qed
    qed
  qed
qed

lemma parse_loop_unanchored:
  "unanchored result \<Longrightarrow> parse_loop types e result pos = Inr body \<Longrightarrow> unanchored body"
proof (induction types e result pos rule: parse_loop.induct)
  case (1 types e result pos)
  show ?case
  proof (cases "pos < length e")
    case False
    with "1.prems" show ?thesis by (simp add: parse_loop_end)
  next
    case True
    show ?thesis
    proof (cases "parse_step types e result pos")
      case (Inl f)
      with True "1.prems"(2) show ?thesis by (simp add: parse_loop_fail)
    next
      case (Inr rp)
      obtain result' pos' where rp: "rp = (result', pos')" by (cases rp)
      from Inr rp "1.prems"(1) have u: "unanchored result'"
        by (auto dest: parse_step_unanchored)
      from True Inr rp "1.prems"(2) have "parse_loop types e result' pos' = Inr body"
        by (simp add: parse_loop_step)
      with u show ?thesis
        by (intro "1.IH"[OF True Inr rp[symmetric]])
    qed
  qed
qed

lemma catch_std_exception_Inr:
  "catch_std_exception x = Inr s \<Longrightarrow> x = Inr s"
  by (cases x rule: catch_std_exception.cases) auto

lemma transform_returns:
  assumes "transform types std_regex e = Inr s"
  shows "validate e = None \<and> (\<exists>body. parse types e = Inr body \<and> s = ''^'' @ body @ ''$'')"
proof -
  from assms have ne: "e \<noteq> []" by (auto simp: transform_def)
  from assms ne have v: "validate e = None"
    by (cases "validate e") (simp_all add: transform_rejected)
  from assms have "(case parse types e of
          Inl f \<Rightarrow> Inl f
        | Inr regex \<Rightarrow>
            (case validateRegex std_regex (''^'' @ regex @ ''$'') of
               Inl f \<Rightarrow> Inl f
             | Inr _ \<Rightarrow> Inr (''^'' @ regex @ ''$''))) = Inr s"
    unfolding transform_validated[OF ne v] by (rule catch_std_exception_Inr)
  then have "\<exists>body. parse types e = Inr body \<and> s = ''^'' @ body @ ''$''"
    by (auto split: sum.splits)
  with v show ?thesis by simp
qed

lemma validate_dollar: "validate ''a$'' = None"
  by code_simp

lemma parse_dollar: "parse getParameterTypes ''a$'' = Inr [CHR ''a'', bs, CHR ''$'']"
  by code_simp

lemma merge_Cons: "merge types (d # ds) = merge (merge_entry types d) ds"
  by (simp add: merge_def)

lemma merge_entry_malformed:
  "name d = None \<or> regexp d = None \<Longrightarrow> merge_entry types d = types"
  by (auto simp: merge_entry_def split: option.splits)

lemma merge_entry_color: "merge_entry types color = types(''color'' \<mapsto> ''red|blue'')"
  by (simp add: merge_entry_def color_def)

lemma merge_color_only:
  assumes "\<forall>d \<in> set customDefs. d = color \<or> name d = None \<or> regexp d = None"
  shows "merge types customDefs =
           (if color \<in> set customDefs then types(''color'' \<mapsto> ''red|blue'') else types)"
  using assms
proof (induction customDefs arbitrary: types)
  case Nil
  then show ?case by (simp add: merge_def)
next
  case (Cons d ds)
  then have rest: "\<forall>d \<in> set ds. d = color \<or> name d = None \<or> regexp d = None" by simp
  show ?case
  proof (cases "d = color")
    case True
    then show ?thesis
      by (auto simp: merge_Cons merge_entry_color Cons.IH[OF rest])
  next
    case False
    with Cons.prems have "name d = None \<or> regexp d = None" by simp
    with False show ?thesis
      by (simp add: merge_Cons merge_entry_malformed Cons.IH[OF rest])
  qed
qed

lemma merge_skips_malformed:
  assumes "name d = None \<or> regexp d = None"
  shows "merge types (ds @ d # ds') = merge types (ds @ ds')"
  using assms by (simp add: merge_def merge_entry_malformed)

lemma validate_color: "validate ''{color}'' = None"
  by code_simp

lemma parse_registered:
  assumes "types ''color'' = Some fragment"
  shows "parse types ''{color}'' = Inr (''('' @ fragment @ '')'')"
proof -
  have "find_char ''{color}'' (CHR ''}'') 0 = Some 6"
    by (simp add: find_char_def)
  with assms have "parseOpenBrace types ''{color}'' [] 0 = Inr (''('' @ fragment @ '')'', 7)"
    by (simp add: parseOpenBrace_def substr_def)
  then have "parse_loop types ''{color}'' [] 0 = parse_loop types ''{color}'' (''('' @ fragment @ '')'') 7"
    by (intro parse_loop_step) (simp_all add: parse_step_brace)
  then show ?thesis by (simp add: parse_def parse_loop_end)
qed

lemma validate_unknown: "validate ''{unknown}'' = None"
  by code_simp

lemma parse_unknown:
  "parse getParameterTypes ''{unknown}'' = Inl (Throw (UnknownParameterTypeException ''unknown''))"
  by code_simp

subsection \<open>Unknown parameter types\<close>

text \<open>
  C1. Claimed: \<^verbatim>\<open>transform("{unknown}")\<close> fails with UnknownParameterType("unknown") and no
  later stage rewraps that error into the base expression error. The code: \<^verbatim>\<open>parse()\<close> does
  throw \<^verbatim>\<open>UnknownParameterTypeException("unknown")\<close>, and the \<^verbatim>\<open>catch\<close> of \<^verbatim>\<open>cukex::transform\<close>
  rethrows it as the base class with the message prefixed; on no expression does
  \<^verbatim>\<open>transform\<close> fail with \<^verbatim>\<open>UnknownParameterTypeException\<close>.
\<close>

theorem C1_unknown_parameter_type_rewrapped:
  "parse getParameterTypes ''{unknown}'' = Inl (Throw (UnknownParameterTypeException ''unknown''))
   \<and> transform getParameterTypes std_regex ''{unknown}''
       = Inl (Throw (CucumberExpressionException
                       ''Invalid Cucumber expression: Unknown parameter type: {unknown}''))
   \<and> (\<forall>types e paramType.
         transform types std_regex e \<noteq> Inl (Throw (UnknownParameterTypeException paramType)))"
proof -
  have "\<forall>types e paramType.
         transform types std_regex e \<noteq> Inl (Throw (UnknownParameterTypeException paramType))"
  proof (intro allI)
    fix types e paramType
    show "transform types std_regex e \<noteq> Inl (Throw (UnknownParameterTypeException paramType))"
      using transform_failure[of types std_regex e
                                 "Throw (UnknownParameterTypeException paramType)"]
      by auto
  qed
  then show ?thesis
    by (simp add: transform_validated validate_unknown parse_unknown)
qed

subsection \<open>Custom parameter type definitions\<close>

text \<open>
  C2. Merging custom definitions that hold the entry \<^verbatim>\<open>{name: "color", regexp: "red|blue"}\<close>
  and otherwise only entries with a missing field: the lookup of \<^verbatim>\<open>color\<close> in the merged
  registry returns \<^verbatim>\<open>red|blue\<close>, \<^verbatim>\<open>transform("{color}")\<close> on the merged registry returns
  \<^verbatim>\<open>^(red|blue)$\<close> (when \<^verbatim>\<open>std::regex\<close> accepts it), and every other lookup, the built-in ones
  among them, is what it was before the merge. An entry with a missing field is skipped:
  merging with it and without it give the same registry.
\<close>

theorem C2_custom_type_merge:
  assumes "color \<in> set customDefs"
    and "\<forall>d \<in> set customDefs. d = color \<or> name d = None \<or> regexp d = None"
  shows "merge types customDefs ''color'' = Some ''red|blue''
       \<and> (std_regex ''^(red|blue)$'' = None \<longrightarrow>
            transform (merge types customDefs) std_regex ''{color}'' = Inr ''^(red|blue)$'')
       \<and> (\<forall>n. n \<noteq> ''color'' \<longrightarrow> merge types customDefs n = types n)
       \<and> (\<forall>d ds ds'. name d = None \<or> regexp d = None \<longrightarrow>
              merge types (ds @ d # ds') = merge types (ds @ ds'))
       \<and> merge getParameterTypes [color] ''color'' = Some ''red|blue''
       \<and> merge getParameterTypes [color] ''int'' = getParameterTypes ''int''"
proof -
  from merge_color_only[OF assms(2)] assms(1)
  have m: "merge types customDefs = types(''color'' \<mapsto> ''red|blue'')" by simp
  have 1: "merge types customDefs ''color'' = Some ''red|blue''" by (simp add: m)
  have 2: "std_regex ''^(red|blue)$'' = None \<longrightarrow>
            transform (merge types customDefs) std_regex ''{color}'' = Inr ''^(red|blue)$''"
    using parse_registered[of "merge types customDefs" "''red|blue''", OF 1]
    by (simp add: transform_validated validate_color validateRegex_def)
  have 3: "\<forall>n. n \<noteq> ''color'' \<longrightarrow> merge types customDefs n = types n" by (simp add: m)
  have 4: "\<forall>d ds ds'. name d = None \<or> regexp d = None \<longrightarrow>
              merge types (ds @ d # ds') = merge types (ds @ ds')"
    by (simp add: merge_skips_malformed)
  have 5: "merge getParameterTypes [color] = getParameterTypes(''color'' \<mapsto> ''red|blue'')"
    by (simp add: merge_def merge_entry_color)
  from 1 2 3 4 5 show ?thesis by simp
qed

theorem C2_custom_type_merge_witness:
  "color \<in> set [\<lparr>name = Some ''size'', regexp = None\<rparr>, color, \<lparr>name = None, regexp = Some ''x''\<rparr>]
   \<and> merge getParameterTypes
        [\<lparr>name = Some ''size'', regexp = None\<rparr>, color, \<lparr>name = None, regexp = Some ''x''\<rparr>]
        ''color'' = Some ''red|blue''
   \<and> transform (merge getParameterTypes
        [\<lparr>name = Some ''size'', regexp = None\<rparr>, color, \<lparr>name = None, regexp = Some ''x''\<rparr>])
        accepts_all ''{color}'' = Inr ''^(red|blue)$''
   \<and> merge getParameterTypes
        [\<lparr>name = Some ''size'', regexp = None\<rparr>, color, \<lparr>name = None, regexp = Some ''x''\<rparr>]
        ''int'' = getParameterTypes ''int''
   \<and> merge getParameterTypes
        [\<lparr>name = Some ''size'', regexp = None\<rparr>, color, \<lparr>name = None, regexp = Some ''x''\<rparr>]
        ''size'' = None"
proof -
  let ?defs = "[\<lparr>name = Some ''size'', regexp = None\<rparr>, color, \<lparr>name = None, regexp = Some ''x''\<rparr>]"
  have a: "color \<in> set ?defs" by simp
  have b: "\<forall>d \<in> set ?defs. d = color \<or> name d = None \<or> regexp d = None" by simp
  note C2 = C2_custom_type_merge [OF a b, of getParameterTypes accepts_all]
  have size: "getParameterTypes ''size'' = None"
    by (simp add: getParameterTypes_def PARAMETER_TYPES_def)
  from C2 have "merge getParameterTypes ?defs ''int'' = getParameterTypes ''int''"
    "merge getParameterTypes ?defs ''size'' = None"
    using size by simp_all
  with C2 a show ?thesis by (simp add: accepts_all_def)
qed

subsection \<open>Anchoring\<close>

text \<open>
  C3. Whenever \<^verbatim>\<open>transform\<close> returns a string, the validator has accepted the input and the
  string is \<^verbatim>\<open>^\<close>, then the output of \<^verbatim>\<open>parse()\<close>, then \<^verbatim>\<open>$\<close>: it starts with \<^verbatim>\<open>^\<close> and ends
  with \<^verbatim>\<open>$\<close>. Each anchor is there once: the output of \<^verbatim>\<open>parse()\<close> never starts with \<^verbatim>\<open>^\<close>,
  and where it ends with \<^verbatim>\<open>$\<close> a backslash stands before that \<^verbatim>\<open>$\<close>.
\<close>

theorem C3_anchored_once:
  assumes "transform types std_regex expression = Inr s"
  shows "validate expression = None
       \<and> (\<exists>body. parse types expression = Inr body \<and> s = CHR ''^'' # body @ [CHR ''$'']
             \<and> (\<forall>xs. body \<noteq> CHR ''^'' # xs)
             \<and> (\<forall>xs. body = xs @ [CHR ''$''] \<longrightarrow> (\<exists>ys. xs = ys @ [bs])))
       \<and> hd s = CHR ''^'' \<and> last s = CHR ''$''"
proof -
  from transform_returns[OF assms] obtain body where
    v: "validate expression = None" and body: "parse types expression = Inr body"
    and s: "s = ''^'' @ body @ ''$''"
    by blast
  from body have "unanchored body"
    unfolding parse_def by (rule parse_loop_unanchored[OF unanchored_Nil])
  then have "(\<forall>xs. body \<noteq> CHR ''^'' # xs)
             \<and> (\<forall>xs. body = xs @ [CHR ''$''] \<longrightarrow> (\<exists>ys. xs = ys @ [bs]))"
    by (simp add: unanchored_def)
  with v body s show ?thesis by auto
qed

theorem C3_anchored_once_witness:
  "transform getParameterTypes accepts_all ''a$'' = Inr [CHR ''^'', CHR ''a'', bs, CHR ''$'', CHR ''$'']
   \<and> validate ''a$'' = None
   \<and> (\<exists>body. parse getParameterTypes ''a$'' = Inr body
         \<and> [CHR ''^'', CHR ''a'', bs, CHR ''$'', CHR ''$''] = CHR ''^'' # body @ [CHR ''$''])"
proof -
  have t: "transform getParameterTypes accepts_all ''a$''
             = Inr [CHR ''^'', CHR ''a'', bs, CHR ''$'', CHR ''$'']"
    by (simp add: transform_validated validate_dollar parse_dollar validateRegex_def
                  accepts_all_def)
  from C3_anchored_once [OF t] t show ?thesis by blast
qed

subsection \<open>Alternation\<close>

text \<open>
  C4. \<^verbatim>\<open>transform("a/b c/d/e")\<close> returns \<^verbatim>\<open>^(?:a|b) (?:c|d|e)$\<close> (when \<^verbatim>\<open>std::regex\<close> accepts that
  pattern). At the first \<^verbatim>\<open>/\<close> the output so far is \<^verbatim>\<open>a\<close> and is replaced by \<^verbatim>\<open>(?:a|b)\<close>; at
  the second the output so far is \<^verbatim>\<open>(?:a|b) c\<close>, of which the word after the last space is
  cut off and \<^verbatim>\<open>(?:c|d|e)\<close> put in its place.
\<close>

theorem C4_alternation:
  assumes "std_regex ''^(?:a|b) (?:c|d|e)$'' = None"
  shows "transform getParameterTypes std_regex ''a/b c/d/e'' = Inr ''^(?:a|b) (?:c|d|e)$''
       \<and> parseAlternatives ''a/b c/d/e'' ''a'' 1 = Inr (''(?:a|b)'', 3)
       \<and> parseAlternatives ''a/b c/d/e'' ''(?:a|b) c'' 5 = Inr (''(?:a|b) (?:c|d|e)'', 9)"
proof -
  have "parseAlternatives ''a/b c/d/e'' ''a'' 1 = Inr (''(?:a|b)'', 3)"
    by code_simp
  moreover have "parseAlternatives ''a/b c/d/e'' ''(?:a|b) c'' 5 = Inr (''(?:a|b) (?:c|d|e)'', 9)"
    by code_simp
  ultimately show ?thesis using assms
    by (simp add: transform_validated validate_alternation parse_alternation validateRegex_def)
qed

theorem C4_alternation_witness:
  "accepts_all ''^(?:a|b) (?:c|d|e)$'' = None
   \<and> transform getParameterTypes accepts_all ''a/b c/d/e'' = Inr ''^(?:a|b) (?:c|d|e)$''"
  using C4_alternation [of accepts_all] by (simp add: accepts_all_def)

subsection \<open>Literal round-trip\<close>

text \<open>
  C5 as claimed fails: \<^verbatim>\<open>"}"\<close> contains none of \<^verbatim>\<open>{ ( ) /\<close> and no backslash, and the validator rejects it
  (its closing brace has no opening one), so \<^verbatim>\<open>transform\<close> does not succeed on it.
\<close>

theorem C5_closing_brace_counterexample:
  "set ''}'' \<inter> {CHR ''{'', CHR ''('', CHR '')'', CHR ''/'', bs} = {}
   \<and> transform getParameterTypes accepts_all ''}'' = Inl (Throw UnmatchedClosingBraceException)"
proof -
  have "transform getParameterTypes accepts_all ''}'' = Inl (Throw UnmatchedClosingBraceException)"
    by (rule transform_rejected) (simp_all add: validate_closing_brace)
  then show ?thesis by (simp add: bs_def)
qed

text \<open>
  C5 as amended: for every non-empty expression containing none of \<^verbatim>\<open>{ } ( ) /\<close> and no backslash, whose
  anchored output \<^verbatim>\<open>std::regex\<close> accepts, \<^verbatim>\<open>transform\<close> returns \<^verbatim>\<open>^\<close>, then the expression
  with a backslash before each metacharacter, then \<^verbatim>\<open>$\<close>.
\<close>

theorem C5_literal_round_trip:
  assumes "expression \<noteq> []"
    and "set expression \<inter> {CHR ''{'', CHR ''}'', CHR ''('', CHR '')'', CHR ''/'', bs} = {}"
    and "std_regex (''^'' @ prefix_metachars expression @ ''$'') = None"
  shows "transform types std_regex expression = Inr (''^'' @ prefix_metachars expression @ ''$'')"
proof -
  from assms(2) have "escapeRegexChars expression = prefix_metachars expression"
    by (intro escapeRegexChars_prefix_metachars) blast
  moreover from assms(2)
  have "set expression \<inter> {CHR ''{'', CHR ''}'', CHR ''('', CHR '')'', CHR ''/''} = {}"
    by blast
  ultimately show ?thesis
    using transform_plain[of expression std_regex types] assms(1,3) by simp
qed

theorem C5_literal_round_trip_witness:
  "''array [0]'' \<noteq> []
   \<and> set ''array [0]'' \<inter> {CHR ''{'', CHR ''}'', CHR ''('', CHR '')'', CHR ''/'', bs} = {}
   \<and> accepts_all (''^'' @ prefix_metachars ''array [0]'' @ ''$'') = None
   \<and> transform getParameterTypes accepts_all ''array [0]''
       = Inr (''^array '' @ [bs] @ ''[0'' @ [bs] @ '']$'')
   \<and> transform getParameterTypes accepts_all ''a'' = Inr ''^a$''"
proof -
  have 1: "set ''array [0]'' \<inter> {CHR ''{'', CHR ''}'', CHR ''('', CHR '')'', CHR ''/'', bs} = {}"
    by (simp add: bs_def)
  have 2: "set ''a'' \<inter> {CHR ''{'', CHR ''}'', CHR ''('', CHR '')'', CHR ''/'', bs} = {}"
    by (simp add: bs_def)
  have 3: "prefix_metachars ''array [0]'' = ''array '' @ [bs] @ ''[0'' @ [bs] @ '']''"
    by (simp add: prefix_metachars_def)
  have 4: "prefix_metachars ''a'' = ''a''"
    by (simp add: prefix_metachars_def)
  from C5_literal_round_trip [of "''array [0]''" accepts_all getParameterTypes, OF _ 1]
       C5_literal_round_trip [of "''a''" accepts_all getParameterTypes, OF _ 2]
  show ?thesis using 1 by (simp add: accepts_all_def 3 4)
qed

subsection \<open>Empty optionals\<close>

text \<open>
  C6 as claimed fails: \<^verbatim>\<open>"()"\<close> passes the validator and \<^verbatim>\<open>transform\<close> fails on it with the
  base class \<^verbatim>\<open>CucumberExpressionpressionException\<close>, not with \<^verbatim>\<open>EmptyOptionalException\<close>;
  and \<^verbatim>\<open>"(a())"\<close>, whose \<^verbatim>\<open>()\<close> lies inside the text of an optional, is compiled.
\<close>

theorem C6_empty_optional_counterexample:
  "validate ''()'' = None
   \<and> transform getParameterTypes accepts_all ''()''
       = Inl (Throw (CucumberExpressionException
           ''Invalid Cucumber expression: Empty optional text is not allowed at position 0''))
   \<and> validate ''(a())'' = None
   \<and> transform getParameterTypes accepts_all ''(a())''
       = Inr (''^(?:a'' @ [bs] @ ''()?'' @ [bs] @ '')$'')"
proof -
  have "parse getParameterTypes ''()''
          = Inl (Throw (CucumberExpressionException
                          (''Empty optional text is not allowed at position '' @ to_string 0)))"
    unfolding parse_def by (rule parse_loop_empty_optional) simp_all
  then have "transform getParameterTypes accepts_all ''()''
       = Inl (Throw (CucumberExpressionException
           ''Invalid Cucumber expression: Empty optional text is not allowed at position 0''))"
    by (simp add: transform_validated validate_empty_optional to_string.simps digit_def)
  moreover have "transform getParameterTypes accepts_all ''(a())''
       = Inr (''^(?:a'' @ [bs] @ ''()?'' @ [bs] @ '')$'')"
    by (simp add: transform_validated validate_nested_empty_optional
                  parse_nested_empty_optional validateRegex_def accepts_all_def)
  ultimately show ?thesis
    by (simp add: validate_empty_optional validate_nested_empty_optional)
qed

text \<open>
  C6 as amended: when the loop of \<^verbatim>\<open>parse()\<close> stands at a \<^verbatim>\<open>(\<close> whose next character is
  \<^verbatim>\<open>)\<close>, it throws the base class exception with the message "Empty optional text is not
  allowed at position N", N the index of the \<^verbatim>\<open>(\<close>. So for every validated expression made
  of a prefix without \<^verbatim>\<open>{ } ( ) /\<close> and backslash, then \<^verbatim>\<open>()\<close>, then anything,
  \<^verbatim>\<open>transform\<close> fails with the base class exception carrying that message; and on no
  expression does \<^verbatim>\<open>transform\<close> fail with \<^verbatim>\<open>EmptyOptionalException\<close>.
\<close>

theorem C6_empty_optional_generic_error:
  "(\<forall>e result pos.
      pos + 1 < length e \<longrightarrow> e ! pos = CHR ''('' \<longrightarrow> e ! (pos + 1) = CHR '')'' \<longrightarrow>
      parse_loop types e result pos =
        Inl (Throw (CucumberExpressionException
                      (''Empty optional text is not allowed at position '' @ to_string pos))))
   \<and> (\<forall>p s.
        validate (p @ ''()'' @ s) = None \<longrightarrow>
        set p \<inter> {CHR ''{'', CHR ''}'', CHR ''('', CHR '')'', CHR ''/'', bs} = {} \<longrightarrow>
        transform types std_regex (p @ ''()'' @ s) =
          Inl (Throw (CucumberExpressionException
                        (''Invalid Cucumber expression: ''
                           @ ''Empty optional text is not allowed at position ''
                           @ to_string (length p)))))
   \<and> (\<forall>e column. transform types std_regex e \<noteq> Inl (Throw (EmptyOptionalException column)))"
proof (intro conjI allI impI)
  fix e result :: string and pos :: nat
  assume "pos + 1 < length e" "e ! pos = CHR ''(''" "e ! (pos + 1) = CHR '')''"
  then show "parse_loop types e result pos =
        Inl (Throw (CucumberExpressionException
                      (''Empty optional text is not allowed at position '' @ to_string pos)))"
    by (rule parse_loop_empty_optional)
next
  fix p s :: string
  let ?e = "p @ ''()'' @ s"
  assume v: "validate ?e = None"
    and p: "set p \<inter> {CHR ''{'', CHR ''}'', CHR ''('', CHR '')'', CHR ''/'', bs} = {}"
  have run: "parse_loop types ?e [] 0
          = parse_loop types ?e ([] @ escapeRegexChars (substr ?e 0 (length p - 0))) (length p)"
  proof (rule parse_loop_literal_run)
    fix j assume "0 \<le> j" "j < length p"
    then have "?e ! j = p ! j" "p ! j \<in> set p" by (simp_all add: nth_append)
    with p show "\<not> escapable ?e j \<and> ?e ! j \<noteq> CHR ''{'' \<and> ?e ! j \<noteq> CHR ''('' \<and> ?e ! j \<noteq> CHR ''/''"
      by (auto simp: escapable_def)
  qed simp_all
  have "parse_loop types ?e (escapeRegexChars p) (length p) =
        Inl (Throw (CucumberExpressionException
                      (''Empty optional text is not allowed at position ''
                         @ to_string (length p))))"
    by (rule parse_loop_empty_optional) (simp_all add: nth_append)
  with run have "parse types ?e =
        Inl (Throw (CucumberExpressionException
                      (''Empty optional text is not allowed at position ''
                         @ to_string (length p))))"
    by (simp add: parse_def substr_def)
  with v show "transform types std_regex ?e =
          Inl (Throw (CucumberExpressionException
                        (''Invalid Cucumber expression: ''
                           @ ''Empty optional text is not allowed at position ''
                           @ to_string (length p))))"
    by (simp add: transform_validated)
next
  fix e :: string and column :: int
  show "transform types std_regex e \<noteq> Inl (Throw (EmptyOptionalException column))"
    using transform_failure[of types std_regex e "Throw (EmptyOptionalException column)"]
    by auto
qed

theorem C6_empty_optional_generic_error_witness:
  "validate (''three '' @ ''()'' @ '' mice'') = None
   \<and> set ''three '' \<inter> {CHR ''{'', CHR ''}'', CHR ''('', CHR '')'', CHR ''/'', bs} = {}
   \<and> transform getParameterTypes accepts_all ''three () mice'' =
       Inl (Throw (CucumberExpressionException
         ''Invalid Cucumber expression: Empty optional text is not allowed at position 6''))
   \<and> parse_loop getParameterTypes ''()'' [] 0 =
       Inl (Throw (CucumberExpressionException
         ''Empty optional text is not allowed at position 0''))"
proof -
  note C6 = C6_empty_optional_generic_error [of getParameterTypes accepts_all]
  have p: "set ''three '' \<inter> {CHR ''{'', CHR ''}'', CHR ''('', CHR '')'', CHR ''/'', bs} = {}"
    by (simp add: bs_def)
  have v: "validate (''three '' @ ''()'' @ '' mice'') = None"
    using validate_three_mice by simp
  have 1: "transform getParameterTypes accepts_all ''three () mice'' =
       Inl (Throw (CucumberExpressionException
         ''Invalid Cucumber expression: Empty optional text is not allowed at position 6''))"
    using C6 [THEN conjunct2, THEN conjunct1, rule_format, OF v p]
    by (simp add: to_string.simps digit_def)
  have 2: "parse_loop getParameterTypes ''()'' [] 0 =
       Inl (Throw (CucumberExpressionException
         ''Empty optional text is not allowed at position 0''))"
    using C6 [THEN conjunct1, rule_format, of 0 "''()''" "[]"]
    by (simp add: to_string.simps digit_def)
  from p v 1 2 show ?thesis by simp
qed

subsection \<open>Validator errors\<close>

text \<open>
  C7. \<^verbatim>\<open>transform("test (")\<close>, \<^verbatim>\<open>transform("{int")\<close>, \<^verbatim>\<open>transform("}")\<close> and
  \<^verbatim>\<open>transform(")")\<close> fail with UnclosedOptional, UnclosedParameter, UnmatchedClosingBrace and
  UnmatchedClosingParenthesis. In general: when the scan ends with depths
  \<open>(braceDepth, parenDepth)\<close>, a non-zero \<open>braceDepth\<close> gives UnclosedParameter and, the brace
  check coming first, a zero \<open>braceDepth\<close> with a non-zero \<open>parenDepth\<close> gives UnclosedOptional;
  and at a counted position inside the scan, a closing brace (parenthesis) that would take
  its depth below zero ends the scan with UnmatchedClosingBrace
  (UnmatchedClosingParenthesis).
\<close>

theorem C7_validator_errors:
  "transform types std_regex ''test ('' =
     Inl (Throw (UnclosedOptionalException ''Unclosed optional text: unmatched parentheses''))
   \<and> transform types std_regex ''{int'' =
     Inl (Throw (UnclosedParameterException ''Unclosed parameter type: unmatched braces''))
   \<and> transform types std_regex ''}'' = Inl (Throw UnmatchedClosingBraceException)
   \<and> transform types std_regex '')'' = Inl (Throw UnmatchedClosingParenthesisException)
   \<and> (\<forall>e braceDepth parenDepth.
         e \<noteq> [] \<longrightarrow> validate_loop e 0 0 0 = Inr (braceDepth, parenDepth) \<longrightarrow> braceDepth \<noteq> 0 \<longrightarrow>
         transform types std_regex e =
           Inl (Throw (UnclosedParameterException
                         ''Unclosed parameter type: unmatched braces'')))
   \<and> (\<forall>e parenDepth.
         e \<noteq> [] \<longrightarrow> validate_loop e 0 0 0 = Inr (0, parenDepth) \<longrightarrow> parenDepth \<noteq> 0 \<longrightarrow>
         transform types std_regex e =
           Inl (Throw (UnclosedOptionalException
                         ''Unclosed optional text: unmatched parentheses'')))
   \<and> (\<forall>e i braceDepth parenDepth.
         i < length e \<longrightarrow> \<not> (0 < i \<and> e ! (i - 1) = bs) \<longrightarrow> e ! i = CHR ''}'' \<longrightarrow>
         braceDepth - 1 < 0 \<longrightarrow>
         validate_loop e i braceDepth parenDepth = Inl (Throw UnmatchedClosingBraceException))
   \<and> (\<forall>e i braceDepth parenDepth.
         i < length e \<longrightarrow> \<not> (0 < i \<and> e ! (i - 1) = bs) \<longrightarrow> e ! i = CHR '')'' \<longrightarrow>
         parenDepth - 1 < 0 \<longrightarrow>
         validate_loop e i braceDepth parenDepth
           = Inl (Throw UnmatchedClosingParenthesisException))"
proof (intro conjI allI impI)
  show "transform types std_regex ''test ('' =
     Inl (Throw (UnclosedOptionalException ''Unclosed optional text: unmatched parentheses''))"
    by (rule transform_rejected) (simp_all add: validate_test_paren)
  show "transform types std_regex ''{int'' =
     Inl (Throw (UnclosedParameterException ''Unclosed parameter type: unmatched braces''))"
    by (rule transform_rejected) (simp_all add: validate_int_open)
  show "transform types std_regex ''}'' = Inl (Throw UnmatchedClosingBraceException)"
    by (rule transform_rejected) (simp_all add: validate_closing_brace)
  show "transform types std_regex '')'' = Inl (Throw UnmatchedClosingParenthesisException)"
    by (rule transform_rejected) (simp_all add: validate_closing_paren)
next
  fix e :: string and braceDepth parenDepth :: int
  assume "e \<noteq> []" "validate_loop e 0 0 0 = Inr (braceDepth, parenDepth)" "braceDepth \<noteq> 0"
  then show "transform types std_regex e =
           Inl (Throw (UnclosedParameterException
                         ''Unclosed parameter type: unmatched braces''))"
    by (simp add: transform_def validate_def)
next
  fix e :: string and parenDepth :: int
  assume "e \<noteq> []" "validate_loop e 0 0 0 = Inr (0, parenDepth)" "parenDepth \<noteq> 0"
  then show "transform types std_regex e =
           Inl (Throw (UnclosedOptionalException
                         ''Unclosed optional text: unmatched parentheses''))"
    by (simp add: transform_def validate_def)
next
  fix e :: string and i :: nat and braceDepth parenDepth :: int
  assume "i < length e" "\<not> (0 < i \<and> e ! (i - 1) = bs)" "e ! i = CHR ''}''"
    "braceDepth - 1 < 0"
  then show "validate_loop e i braceDepth parenDepth
               = Inl (Throw UnmatchedClosingBraceException)"
    by (simp add: validate_loop_counted counted_def)
next
  fix e :: string and i :: nat and braceDepth parenDepth :: int
  assume "i < length e" "\<not> (0 < i \<and> e ! (i - 1) = bs)" "e ! i = CHR '')''"
    "parenDepth - 1 < 0"
  then show "validate_loop e i braceDepth parenDepth
               = Inl (Throw UnmatchedClosingParenthesisException)"
    by (simp add: validate_loop_counted counted_def)
qed

theorem C7_validator_errors_witness:
  "validate_loop ''{int'' 0 0 0 = Inr (1, 0)
   \<and> transform getParameterTypes accepts_all ''{int'' =
       Inl (Throw (UnclosedParameterException ''Unclosed parameter type: unmatched braces''))
   \<and> validate_loop ''test ('' 0 0 0 = Inr (0, 1)
   \<and> transform getParameterTypes accepts_all ''test ('' =
       Inl (Throw (UnclosedOptionalException ''Unclosed optional text: unmatched parentheses''))
   \<and> validate_loop ''}'' 0 0 0 = Inl (Throw UnmatchedClosingBraceException)
   \<and> validate_loop ''a)'' 1 0 0 = Inl (Throw UnmatchedClosingParenthesisException)"
proof -
  note C7 = C7_validator_errors [of getParameterTypes accepts_all]
  note r = C7 [THEN conjunct2, THEN conjunct2, THEN conjunct2, THEN conjunct2]
  note up = r [THEN conjunct1, rule_format]
  note uo = r [THEN conjunct2, THEN conjunct1, rule_format]
  note cb = r [THEN conjunct2, THEN conjunct2, THEN conjunct1, rule_format]
  note cp = r [THEN conjunct2, THEN conjunct2, THEN conjunct2, rule_format]
  have 1: "transform getParameterTypes accepts_all ''{int'' =
       Inl (Throw (UnclosedParameterException ''Unclosed parameter type: unmatched braces''))"
    by (rule up[OF _ validate_loop_int_open]) simp_all
  have 2: "transform getParameterTypes accepts_all ''test ('' =
       Inl (Throw (UnclosedOptionalException ''Unclosed optional text: unmatched parentheses''))"
    by (rule uo[OF _ validate_loop_test_paren]) simp_all
  have 3: "validate_loop ''}'' 0 0 0 = Inl (Throw UnmatchedClosingBraceException)"
    by (rule cb) simp_all
  have 4: "validate_loop ''a)'' 1 0 0 = Inl (Throw UnmatchedClosingParenthesisException)"
    by (rule cp) (simp_all add: bs_def)
  from 1 2 3 4 show ?thesis
    by (simp add: validate_loop_int_open validate_loop_test_paren)
qed

subsection \<open>Backslashes in the validation scan\<close>

text \<open>
  C8 as claimed fails: in the four characters \<^verbatim>\<open>a\\(\<close> the parenthesis follows a backslash that
  is itself preceded by a backslash, yet the scan skips it, the depths stay 0 and the input
  is accepted (and compiled).
\<close>

theorem C8_escaped_backslash_counterexample:
  "counted_chars [CHR ''a'', bs, bs, CHR ''(''] = [CHR ''a'', bs]
   \<and> validate [CHR ''a'', bs, bs, CHR ''(''] = None
   \<and> transform getParameterTypes accepts_all [CHR ''a'', bs, bs, CHR ''('']
       = Inr [CHR ''^'', CHR ''a'', bs, bs, bs, CHR ''('', CHR ''$'']"
proof -
  have "counted_chars [CHR ''a'', bs, bs, CHR ''(''] = [CHR ''a'', bs]"
    by code_simp
  moreover have "transform getParameterTypes accepts_all [CHR ''a'', bs, bs, CHR ''('']
       = Inr [CHR ''^'', CHR ''a'', bs, bs, bs, CHR ''('', CHR ''$'']"
    by (simp add: transform_validated validate_escaped_backslash parse_escaped_backslash
                  validateRegex_def accepts_all_def)
  ultimately show ?thesis by (simp add: validate_escaped_backslash)
qed

text \<open>
  C8 as amended: the scan leaves a character out of the depth tracking exactly when the
  character immediately before it is a backslash, escaped or not. The scan of the source
  computes what plain depth tracking computes on the characters at the counted positions.
\<close>

theorem C8_scan_skips_after_any_backslash:
  "validate_loop expression 0 braceDepth parenDepth
     = depth_scan (map (\<lambda>i. expression ! i)
                       (filter (\<lambda>i. \<not> (0 < i \<and> expression ! (i - 1) = bs))
                               [0..<length expression]))
                  braceDepth parenDepth"
proof -
  have "counted expression = (\<lambda>i. \<not> (0 < i \<and> expression ! (i - 1) = bs))"
    by (rule ext) (simp add: counted_def)
  then show ?thesis
    using validate_loop_counted_chars[of expression braceDepth parenDepth]
    by (simp add: counted_chars_def)
qed

subsection \<open>Reads of the expression\<close>

text \<open>
  C9. Claimed: a non-empty expression that passes the validator is only ever read at
  positions inside the string; the alternation handler never sees a \<^verbatim>\<open>/\<close> at position 0.
  The code at \<^verbatim>\<open>"/a"\<close>: the expression is not empty, the validator accepts it, and
  \<^verbatim>\<open>parseAlternatives\<close> runs with \<^verbatim>\<open>pos == 0\<close>, so \<^verbatim>\<open>collectAlternativesFromHere(pos - 1)\<close>
  starts at \<^verbatim>\<open>SIZE_MAX\<close> and \<^verbatim>\<open>expression[SIZE_MAX]\<close> is read.
\<close>

theorem C9_leading_slash_out_of_bounds:
  "''/a'' \<noteq> [] \<and> validate ''/a'' = None
   \<and> parse_step getParameterTypes ''/a'' [] 0 = parseAlternatives ''/a'' [] 0
   \<and> transform getParameterTypes std_regex ''/a'' = Inl OutOfBoundsRead"
proof -
  have "parse getParameterTypes ''/a'' = Inl OutOfBoundsRead"
    by (rule parse_leading_slash) (simp_all add: SIZE_MAX_def)
  then have "transform getParameterTypes std_regex ''/a'' = Inl OutOfBoundsRead"
    by (simp add: transform_validated validate_slash_a)
  then show ?thesis by (simp add: validate_slash_a parse_step_slash)
qed

subsection \<open>Backslashes that escape nothing\<close>

text \<open>
  C10. At a backslash that is the last character, or whose next character is none of
  \<^verbatim>\<open>( ) { } /\<close>, one turn of the loop of \<^verbatim>\<open>parse()\<close> appends two backslashes to the
  output, moves one position on and raises nothing; the loop then goes on from the next
  character as from any other state (and is finished when there is none). A whole
  expression without \<^verbatim>\<open>( ) { } /\<close> is compiled, each backslash in it doubled by
  \<^verbatim>\<open>escapeRegexChars\<close>, provided \<^verbatim>\<open>std::regex\<close> accepts the result.
\<close>

theorem C10_backslash_literal:
  assumes "pos < length expression" and "expression ! pos = bs"
    and "pos + 1 < length expression \<longrightarrow>
           expression ! (pos + 1) \<notin> {CHR ''('', CHR '')'', CHR ''{'', CHR ''}'', CHR ''/''}"
  shows "parse_step types expression result pos = Inr (result @ [bs, bs], pos + 1)
       \<and> parse_loop types expression result pos
           = parse_loop types expression (result @ [bs, bs]) (pos + 1)
       \<and> (pos + 1 = length expression \<longrightarrow>
            parse_loop types expression result pos = Inr (result @ [bs, bs]))
       \<and> (\<forall>e. e \<noteq> [] \<longrightarrow> set e \<inter> {CHR ''('', CHR '')'', CHR ''{'', CHR ''}'', CHR ''/''} = {} \<longrightarrow>
              std_regex (''^'' @ escapeRegexChars e @ ''$'') = None \<longrightarrow>
              transform types std_regex e = Inr (''^'' @ escapeRegexChars e @ ''$''))
       \<and> escapeRegexChars [bs] = [bs, bs]"
proof -
  from assms(3) have ne: "\<not> escapable expression pos"
    by (auto simp: escapable_def)
  have step: "parse_step types expression result pos = Inr (result @ [bs, bs], pos + 1)"
    using assms(2) by (simp add: parse_step_literal[OF ne] regex_special_def bs_def)
  have loop: "parse_loop types expression result pos
                = parse_loop types expression (result @ [bs, bs]) (pos + 1)"
    using assms(1) step by (rule parse_loop_step)
  have last: "pos + 1 = length expression \<longrightarrow>
                parse_loop types expression result pos = Inr (result @ [bs, bs])"
    using loop by (simp add: parse_loop_end)
  have whole: "\<forall>e. e \<noteq> [] \<longrightarrow> set e \<inter> {CHR ''('', CHR '')'', CHR ''{'', CHR ''}'', CHR ''/''} = {} \<longrightarrow>
              std_regex (''^'' @ escapeRegexChars e @ ''$'') = None \<longrightarrow>
              transform types std_regex e = Inr (''^'' @ escapeRegexChars e @ ''$'')"
  proof (intro allI impI)
    fix e :: string
    assume "e \<noteq> []" "set e \<inter> {CHR ''('', CHR '')'', CHR ''{'', CHR ''}'', CHR ''/''} = {}"
      "std_regex (''^'' @ escapeRegexChars e @ ''$'') = None"
    moreover from this(2)
    have "set e \<inter> {CHR ''{'', CHR ''}'', CHR ''('', CHR '')'', CHR ''/''} = {}" by blast
    ultimately show "transform types std_regex e = Inr (''^'' @ escapeRegexChars e @ ''$'')"
      by (intro transform_plain)
  qed
  have "escapeRegexChars [bs] = [bs, bs]"
    by (simp add: regex_special_def)
  with step loop last whole show ?thesis by blast
qed

theorem C10_backslash_literal_witness:
  "parse_step getParameterTypes [CHR ''a'', bs, CHR ''b''] ''a'' 1 = Inr ([CHR ''a'', bs, bs], 2)
   \<and> parse_loop getParameterTypes [CHR ''a'', bs] ''a'' 1 = Inr [CHR ''a'', bs, bs]
   \<and> transform getParameterTypes accepts_all [CHR ''a'', bs, CHR ''b'']
       = Inr [CHR ''^'', CHR ''a'', bs, bs, CHR ''b'', CHR ''$'']
   \<and> transform getParameterTypes accepts_all [bs] = Inr [CHR ''^'', bs, bs, CHR ''$'']"
proof -
  have a: "parse_step getParameterTypes [CHR ''a'', bs, CHR ''b''] ''a'' 1
             = Inr ([CHR ''a'', bs, bs], 2)"
    using C10_backslash_literal [of 1 "[CHR ''a'', bs, CHR ''b'']" getParameterTypes "''a''"
                                    accepts_all]
    by (simp add: bs_def)
  have b: "parse_loop getParameterTypes [CHR ''a'', bs] ''a'' 1 = Inr [CHR ''a'', bs, bs]"
    using C10_backslash_literal [of 1 "[CHR ''a'', bs]" getParameterTypes "''a''" accepts_all,
            THEN conjunct2, THEN conjunct2, THEN conjunct1]
    by simp
  note whole = C10_backslash_literal [of 0 "[bs]" getParameterTypes "[]" accepts_all,
      simplified, THEN conjunct2, THEN conjunct2, THEN conjunct2, THEN conjunct1, rule_format]
  have c: "transform getParameterTypes accepts_all [CHR ''a'', bs, CHR ''b'']
             = Inr [CHR ''^'', CHR ''a'', bs, bs, CHR ''b'', CHR ''$'']"
    using whole [of "[CHR ''a'', bs, CHR ''b'']"]
    by (simp add: accepts_all_def regex_special_def bs_def)
  have d: "transform getParameterTypes accepts_all [bs] = Inr [CHR ''^'', bs, bs, CHR ''$'']"
    using whole [of "[bs]"]
    by (simp add: accepts_all_def regex_special_def bs_def)
  from a b c d show ?thesis by simp
qed

end
